theory Spec2Isabelle
  imports Complex_Main
begin

section \<open>Block Blast: the game-state engine of game.js\<close>

text \<open>
  The theory embeds the classes \<open>Piece\<close>, \<open>Grid\<close> and \<open>Game\<close> of \<open>game.js\<close>, and the drop
  handler of \<open>DragController\<close>. Mutation of \<open>this\<close> is explicit state passing. A JavaScript
  exception is a value of type \<open>error\<close> on the left of a sum. Numbers that the code only
  ever uses as array indices and loop counters are \<open>nat\<close>; grid coordinates that come
  from outside (anchors, and anchor plus offset) are \<open>int\<close>, since they may be negative.
  The DOM, the sounds, the animations and the stored high score are not part of the
  state that is modelled.
\<close>

subsection \<open>Exceptions\<close>

datatype error =
    TypeError \<comment> \<open>reading a property of \<open>undefined\<close>\<close>
  | UnknownPieceType string \<comment> \<open>\<open>throw new Error(`Unknown piece type: ${type}`)\<close>\<close>

definition bindE :: "error + 'a \<Rightarrow> ('a \<Rightarrow> error + 'b) \<Rightarrow> error + 'b" where
  "bindE m f = (case m of Inl e \<Rightarrow> Inl e | Inr x \<Rightarrow> f x)"

subsection \<open>The piece catalog\<close>

text \<open>
  \<open>PIECE_DEFINITIONS\<close> is an object literal; its own keys are listed in insertion order
  by \<open>Object.keys\<close>, so it is an association list here.
\<close>

definition PIECE_DEFINITIONS :: "(string \<times> (nat list list \<times> string)) list" where
  "PIECE_DEFINITIONS =
    [(''line3h'', ([[1, 1, 1]], ''#00D4FF'')),
     (''line4h'', ([[1, 1, 1, 1]], ''#00D4FF'')),
     (''line3v'', ([[1], [1], [1]], ''#00D4FF'')),
     (''line4v'', ([[1], [1], [1], [1]], ''#00D4FF'')),
     (''square2'', ([[1, 1], [1, 1]], ''#FFD700'')),
     (''square3'', ([[1, 1, 1], [1, 1, 1], [1, 1, 1]], ''#FFD700'')),
     (''lShape1'', ([[1, 0], [1, 0], [1, 1]], ''#FF8C00'')),
     (''lShape2'', ([[1, 1, 1], [1, 0, 0]], ''#FF8C00'')),
     (''lShape3'', ([[1, 1], [0, 1], [0, 1]], ''#FF8C00'')),
     (''lShape4'', ([[0, 0, 1], [1, 1, 1]], ''#FF8C00'')),
     (''tShape1'', ([[1, 1, 1], [0, 1, 0]], ''#B388FF'')),
     (''tShape2'', ([[0, 1], [1, 1], [0, 1]], ''#B388FF'')),
     (''tShape3'', ([[0, 1, 0], [1, 1, 1]], ''#B388FF'')),
     (''tShape4'', ([[1, 0], [1, 1], [1, 0]], ''#B388FF'')),
     (''zShape1'', ([[1, 1, 0], [0, 1, 1]], ''#FF5252'')),
     (''zShape2'', ([[0, 1], [1, 1], [1, 0]], ''#FF5252'')),
     (''sShape1'', ([[0, 1, 1], [1, 1, 0]], ''#00E676'')),
     (''sShape2'', ([[1, 0], [1, 1], [0, 1]], ''#00E676''))]"

definition PIECE_TYPES :: "string list" where
  "PIECE_TYPES = map fst PIECE_DEFINITIONS"

record piece =
  ptype :: string
  shape :: "nat list list"
  color :: string
  rows :: nat
  cols :: nat

text \<open>
  The constructor. \<open>PIECE_DEFINITIONS[type]\<close> also finds the properties every object
  inherits from \<open>Object.prototype\<close>; such a value is truthy and has no \<open>shape\<close>, so
  \<open>this.shape.length\<close> raises a TypeError. An empty shape has no row 0, so
  \<open>this.shape[0].length\<close> raises as well.
\<close>

definition objectPrototypeKeys :: "string list" where
  "objectPrototypeKeys =
    [''constructor'', ''toString'', ''toLocaleString'', ''valueOf'', ''hasOwnProperty'',
     ''isPrototypeOf'', ''propertyIsEnumerable'', ''__proto__'', ''__defineGetter__'',
     ''__defineSetter__'', ''__lookupGetter__'', ''__lookupSetter__'']"

definition Piece :: "string \<Rightarrow> error + piece" where
  "Piece t =
     (case map_of PIECE_DEFINITIONS t of
        None \<Rightarrow> if t \<in> set objectPrototypeKeys then Inl TypeError else Inl (UnknownPieceType t)
      | Some (sh, c) \<Rightarrow>
          (case sh of
             [] \<Rightarrow> Inl TypeError
           | r0 # _ \<Rightarrow>
               Inr \<lparr>ptype = t, shape = sh, color = c, rows = length sh, cols = length r0\<rparr>))"

text \<open>
  \<open>Math.random()\<close> is a parameter: \<open>u\<close> is the number the call returns, a real in
  \<open>[0, 1)\<close>. An index outside \<open>PIECE_TYPES\<close> reads \<open>undefined\<close>, which the constructor
  rejects with the message \<open>Unknown piece type: undefined\<close>.
\<close>

definition createRandom :: "real \<Rightarrow> error + piece" where
  "createRandom u =
     (let randomIndex = \<lfloor>u * real (length PIECE_TYPES)\<rfloor>
      in if 0 \<le> randomIndex \<and> randomIndex < int (length PIECE_TYPES)
         then Piece (PIECE_TYPES ! nat randomIndex)
         else Inl (UnknownPieceType ''undefined''))"

text \<open>
  \<open>shape[row][col]\<close>: \<open>None\<close> is \<open>undefined\<close> (a column past the end of the row); a row past
  the end of the shape is \<open>undefined[col]\<close>, a TypeError.
\<close>

definition shapeAt :: "nat list list \<Rightarrow> nat \<Rightarrow> nat \<Rightarrow> error + nat option" where
  "shapeAt sh row col =
     (if row < length sh
      then Inr (if col < length (sh ! row) then Some (sh ! row ! col) else None)
      else Inl TypeError)"

text \<open>The two loops of \<open>getFilledCells\<close>; \<open>cells\<close> is the array that is pushed to.\<close>

fun getFilledCells_cols ::
  "piece \<Rightarrow> nat \<Rightarrow> nat list \<Rightarrow> (nat \<times> nat) list \<Rightarrow> error + (nat \<times> nat) list" where
  "getFilledCells_cols p row [] cells = Inr cells"
| "getFilledCells_cols p row (col # cs) cells =
     bindE (shapeAt (shape p) row col)
       (\<lambda>v. getFilledCells_cols p row cs (if v = Some 1 then cells @ [(row, col)] else cells))"

fun getFilledCells_rows ::
  "piece \<Rightarrow> nat list \<Rightarrow> (nat \<times> nat) list \<Rightarrow> error + (nat \<times> nat) list" where
  "getFilledCells_rows p [] cells = Inr cells"
| "getFilledCells_rows p (row # rs) cells =
     bindE (getFilledCells_cols p row [0..<cols p] cells) (getFilledCells_rows p rs)"

definition getFilledCells :: "piece \<Rightarrow> error + (nat \<times> nat) list" where
  "getFilledCells p = getFilledCells_rows p [0..<rows p] []"

subsection \<open>The grid\<close>

text \<open>
  A cell of \<open>state\<close> holds \<open>null\<close> or a colour string. \<open>Undefined\<close> is what JavaScript
  reads past the end of a row, and what fills the gap when a row is written past its
  end.
\<close>

datatype cell = Undefined | Null | Color string

record grid =
  gridSize :: nat
  state :: "cell list list"

definition createEmptyState :: "nat \<Rightarrow> cell list list" where
  "createEmptyState n = map (\<lambda>_. replicate n Null) (replicate n Null)"

definition Grid :: "nat \<Rightarrow> grid" where
  "Grid n = \<lparr>gridSize = n, state = createEmptyState n\<rparr>"

definition reset_grid :: "grid \<Rightarrow> grid" where
  "reset_grid g = g\<lparr>state := createEmptyState (gridSize g)\<rparr>"

text \<open>\<open>state[row][col]\<close> as a read and as an assignment target.\<close>

definition readCell :: "cell list list \<Rightarrow> nat \<Rightarrow> nat \<Rightarrow> error + cell" where
  "readCell st row col =
     (if row < length st
      then Inr (if col < length (st ! row) then st ! row ! col else Undefined)
      else Inl TypeError)"

definition arrayAssign :: "cell list \<Rightarrow> nat \<Rightarrow> cell \<Rightarrow> cell list" where
  "arrayAssign xs i v =
     (if i < length xs then xs[i := v]
      else xs @ replicate (i - length xs) Undefined @ [v])"

definition writeCell :: "cell list list \<Rightarrow> nat \<Rightarrow> nat \<Rightarrow> cell \<Rightarrow> error + cell list list" where
  "writeCell st row col v =
     (if row < length st
      then Inr (st[row := arrayAssign (st ! row) col v])
      else Inl TypeError)"

definition isValidCell :: "grid \<Rightarrow> int \<Rightarrow> int \<Rightarrow> bool" where
  "isValidCell g row col \<longleftrightarrow>
     row \<ge> 0 \<and> row < int (gridSize g) \<and> col \<ge> 0 \<and> col < int (gridSize g)"

definition isCellEmpty :: "grid \<Rightarrow> int \<Rightarrow> int \<Rightarrow> error + bool" where
  "isCellEmpty g row col =
     (if isValidCell g row col
      then bindE (readCell (state g) (nat row) (nat col)) (\<lambda>v. Inr (v = Null))
      else Inr False)"

definition setCell :: "grid \<Rightarrow> int \<Rightarrow> int \<Rightarrow> string \<Rightarrow> error + grid" where
  "setCell g row col c =
     (if isValidCell g row col
      then bindE (writeCell (state g) (nat row) (nat col) (Color c))
             (\<lambda>st. Inr (g\<lparr>state := st\<rparr>))
      else Inr g)"

definition clearCell :: "grid \<Rightarrow> int \<Rightarrow> int \<Rightarrow> error + grid" where
  "clearCell g row col =
     (if isValidCell g row col
      then bindE (writeCell (state g) (nat row) (nat col) Null)
             (\<lambda>st. Inr (g\<lparr>state := st\<rparr>))
      else Inr g)"

text \<open>The loop of \<open>canPlacePiece\<close> over the filled cells, with its two early returns.\<close>

fun canPlacePiece_loop :: "grid \<Rightarrow> int \<Rightarrow> int \<Rightarrow> (nat \<times> nat) list \<Rightarrow> error + bool" where
  "canPlacePiece_loop g gridRow gridCol [] = Inr True"
| "canPlacePiece_loop g gridRow gridCol ((r, c) # cells) =
     (let targetRow = gridRow + int r; targetCol = gridCol + int c
      in if \<not> isValidCell g targetRow targetCol then Inr False
         else bindE (readCell (state g) (nat targetRow) (nat targetCol))
                (\<lambda>v. if v \<noteq> Null then Inr False
                      else canPlacePiece_loop g gridRow gridCol cells))"

definition canPlacePiece :: "grid \<Rightarrow> piece \<Rightarrow> int \<Rightarrow> int \<Rightarrow> error + bool" where
  "canPlacePiece g p gridRow gridCol =
     bindE (getFilledCells p) (canPlacePiece_loop g gridRow gridCol)"

text \<open>
  The invariant of a \<open>Grid\<close> object: \<open>state\<close> is a \<open>size \<times> size\<close> array. The constructor
  establishes it and every method of the class that the game calls keeps it.
\<close>

definition wf_grid :: "grid \<Rightarrow> bool" where
  "wf_grid g \<longleftrightarrow>
     length (state g) = gridSize g \<and> (\<forall>r \<in> set (state g). length r = gridSize g)"

definition wf_piece :: "piece \<Rightarrow> bool" where
  \<comment> \<open>what the constructor sets: \<open>rows = shape.length\<close>, \<open>cols = shape[0].length\<close>\<close>
  "wf_piece p \<longleftrightarrow> shape p \<noteq> [] \<and> rows p = length (shape p) \<and> cols p = length (shape p ! 0)"

definition wf_tray :: "piece option list \<Rightarrow> bool" where
  \<comment> \<open>every piece in the tray is as the constructor builds it\<close>
  "wf_tray ps \<longleftrightarrow> list_all (\<lambda>slot. case slot of None \<Rightarrow> True | Some p \<Rightarrow> wf_piece p) ps"

text \<open>
  \<open>findCompleteRows\<close> and \<open>findCompleteCols\<close>: the inner loop stops at the first \<open>null\<close>
  (\<open>break\<close>), the outer loop pushes the index of every line that had none.
\<close>

fun rowIsComplete :: "cell list list \<Rightarrow> nat \<Rightarrow> nat list \<Rightarrow> error + bool" where
  "rowIsComplete st row [] = Inr True"
| "rowIsComplete st row (col # cs) =
     bindE (readCell st row col)
       (\<lambda>v. if v = Null then Inr False else rowIsComplete st row cs)"

fun findCompleteRows_loop :: "grid \<Rightarrow> nat list \<Rightarrow> nat list \<Rightarrow> error + nat list" where
  "findCompleteRows_loop g [] completeRows = Inr completeRows"
| "findCompleteRows_loop g (row # rs) completeRows =
     bindE (rowIsComplete (state g) row [0..<gridSize g])
       (\<lambda>isComplete.
          findCompleteRows_loop g rs (if isComplete then completeRows @ [row] else completeRows))"

definition findCompleteRows :: "grid \<Rightarrow> error + nat list" where
  "findCompleteRows g = findCompleteRows_loop g [0..<gridSize g] []"

fun colIsComplete :: "cell list list \<Rightarrow> nat \<Rightarrow> nat list \<Rightarrow> error + bool" where
  "colIsComplete st col [] = Inr True"
| "colIsComplete st col (row # rs) =
     bindE (readCell st row col)
       (\<lambda>v. if v = Null then Inr False else colIsComplete st col rs)"

fun findCompleteCols_loop :: "grid \<Rightarrow> nat list \<Rightarrow> nat list \<Rightarrow> error + nat list" where
  "findCompleteCols_loop g [] completeCols = Inr completeCols"
| "findCompleteCols_loop g (col # cs) completeCols =
     bindE (colIsComplete (state g) col [0..<gridSize g])
       (\<lambda>isComplete.
          findCompleteCols_loop g cs (if isComplete then completeCols @ [col] else completeCols))"

definition findCompleteCols :: "grid \<Rightarrow> error + nat list" where
  "findCompleteCols g = findCompleteCols_loop g [0..<gridSize g] []"

text \<open>
  \<open>getCellsToClear\<close> collects the keys \<open>`${row},${col}`\<close> in a \<open>Set\<close> and maps them back to
  cells. A \<open>Set\<close> keeps one copy of a key, in the order of first insertion: a list
  without repetition, to which \<open>add\<close> appends what is new. The key of a cell is its
  row and its column in decimal, separated by a comma.
\<close>

fun digits :: "nat \<Rightarrow> string" where
  "digits n =
     (if n < 10 then [char_of (48 + n)]
      else digits (n div 10) @ [char_of (48 + n mod 10)])"

definition cellKey :: "nat \<Rightarrow> nat \<Rightarrow> string" where
  "cellKey row col = digits row @ '','' @ digits col"

definition Number :: "string \<Rightarrow> nat" where
  \<comment> \<open>\<open>Number(s)\<close> on a string of decimal digits\<close>
  "Number s = foldl (\<lambda>acc ch. 10 * acc + (of_char ch - 48)) 0 s"

definition splitComma :: "string \<Rightarrow> string list" where
  \<comment> \<open>\<open>key.split(',')\<close> on a key with one comma\<close>
  "splitComma key =
     [takeWhile (\<lambda>ch. ch \<noteq> CHR '','') key, tl (dropWhile (\<lambda>ch. ch \<noteq> CHR '','') key)]"

definition keyCell :: "string \<Rightarrow> nat \<times> nat" where
  \<comment> \<open>\<open>const [row, col] = key.split(',').map(Number)\<close>\<close>
  "keyCell key = (let parts = map Number (splitComma key) in (parts ! 0, parts ! 1))"

definition setAdd :: "'a list \<Rightarrow> 'a \<Rightarrow> 'a list" where
  "setAdd s x = (if x \<in> set s then s else s @ [x])"

definition getCellsToClear :: "grid \<Rightarrow> nat list \<Rightarrow> nat list \<Rightarrow> (nat \<times> nat) list" where
  "getCellsToClear g rs cs =
     (let fromRows =
            fold (\<lambda>row. fold (\<lambda>col s. setAdd s (cellKey row col)) [0..<gridSize g]) rs [];
          cellsSet =
            fold (\<lambda>col. fold (\<lambda>row s. setAdd s (cellKey row col)) [0..<gridSize g]) cs fromRows
      in map keyCell cellsSet)"

text \<open>\<open>clearCells\<close> writes \<open>null\<close> without a bounds check.\<close>

fun clearCells :: "grid \<Rightarrow> (nat \<times> nat) list \<Rightarrow> error + grid" where
  "clearCells g [] = Inr g"
| "clearCells g ((row, col) # cells) =
     bindE (writeCell (state g) row col Null) (\<lambda>st. clearCells (g\<lparr>state := st\<rparr>) cells)"

subsection \<open>The game\<close>

text \<open>A tray slot holds a piece or \<open>null\<close> (\<open>None\<close>). The score is a JavaScript number,
  an integer that stays far below \<open>2^53\<close>, so it is an \<open>int\<close>.\<close>

record game =
  grid :: grid
  score :: int
  trayPieces :: "piece option list"
  isAnimating :: bool
  isGameOver :: bool

definition canInteract :: "game \<Rightarrow> bool" where
  "canInteract gm \<longleftrightarrow> \<not> isGameOver gm \<and> \<not> isAnimating gm"

text \<open>\<open>generateTrayPieces\<close> draws three pieces; \<open>us\<close> holds the three results of
  \<open>Math.random()\<close>, in the order of the calls.\<close>

definition generateTrayPieces :: "game \<Rightarrow> real \<times> real \<times> real \<Rightarrow> error + game" where
  "generateTrayPieces gm us =
     (case us of (u1, u2, u3) \<Rightarrow>
        bindE (createRandom u1) (\<lambda>p1.
        bindE (createRandom u2) (\<lambda>p2.
        bindE (createRandom u3) (\<lambda>p3.
          Inr (gm\<lparr>trayPieces := [Some p1, Some p2, Some p3]\<rparr>)))))"

definition randoms_ok :: "real \<times> real \<times> real \<Rightarrow> bool" where
  \<comment> \<open>\<open>Math.random()\<close> returns a number in \<open>[0, 1)\<close>\<close>
  "randoms_ok us \<longleftrightarrow>
     (case us of (u1, u2, u3) \<Rightarrow> 0 \<le> u1 \<and> u1 < 1 \<and> 0 \<le> u2 \<and> u2 < 1 \<and> 0 \<le> u3 \<and> u3 < 1)"

definition Game :: "real \<times> real \<times> real \<Rightarrow> error + game" where
  "Game us =
     generateTrayPieces
       \<lparr>grid = Grid 8, score = 0, trayPieces = [], isAnimating = False, isGameOver = False\<rparr> us"

definition startNewGame :: "game \<Rightarrow> real \<times> real \<times> real \<Rightarrow> error + game" where
  "startNewGame gm us =
     generateTrayPieces
       (gm\<lparr>grid := reset_grid (grid gm), score := 0, isGameOver := False, isAnimating := False\<rparr>)
       us"

text \<open>\<open>canPieceFitAnywhere\<close>: \<open>maxRow\<close> and \<open>maxCol\<close> may be negative, and then a loop
  has no iteration.\<close>

fun canPieceFitAnywhere_cols :: "grid \<Rightarrow> piece \<Rightarrow> int \<Rightarrow> int list \<Rightarrow> error + bool" where
  "canPieceFitAnywhere_cols g p row [] = Inr False"
| "canPieceFitAnywhere_cols g p row (col # cs) =
     bindE (canPlacePiece g p row col)
       (\<lambda>ok. if ok then Inr True else canPieceFitAnywhere_cols g p row cs)"

fun canPieceFitAnywhere_rows :: "grid \<Rightarrow> piece \<Rightarrow> int \<Rightarrow> int list \<Rightarrow> error + bool" where
  "canPieceFitAnywhere_rows g p maxCol [] = Inr False"
| "canPieceFitAnywhere_rows g p maxCol (row # rs) =
     bindE (canPieceFitAnywhere_cols g p row [0..maxCol])
       (\<lambda>found. if found then Inr True else canPieceFitAnywhere_rows g p maxCol rs)"

definition canPieceFitAnywhere :: "game \<Rightarrow> piece \<Rightarrow> error + bool" where
  "canPieceFitAnywhere gm p =
     (let maxRow = int (gridSize (grid gm)) - int (rows p);
          maxCol = int (gridSize (grid gm)) - int (cols p)
      in canPieceFitAnywhere_rows (grid gm) p maxCol [0..maxRow])"

fun checkGameOver_loop :: "game \<Rightarrow> piece option list \<Rightarrow> error + bool" where
  "checkGameOver_loop gm [] = Inr True"
| "checkGameOver_loop gm (None # ps) = checkGameOver_loop gm ps"
| "checkGameOver_loop gm (Some p # ps) =
     bindE (canPieceFitAnywhere gm p)
       (\<lambda>fits. if fits then Inr False else checkGameOver_loop gm ps)"

definition checkGameOver :: "game \<Rightarrow> error + bool" where
  "checkGameOver gm = checkGameOver_loop gm (trayPieces gm)"

definition triggerGameOver :: "game \<Rightarrow> game" where
  "triggerGameOver gm = gm\<lparr>isGameOver := True\<rparr>"

definition addScore :: "game \<Rightarrow> int \<Rightarrow> game" where
  "addScore gm points = gm\<lparr>score := score gm + points\<rparr>"

definition calculateLineBonus :: "int \<Rightarrow> int" where
  "calculateLineBonus lineCount = 500 * lineCount * lineCount"

definition checkAndClearLines :: "game \<Rightarrow> error + game" where
  "checkAndClearLines gm =
     bindE (findCompleteRows (grid gm)) (\<lambda>completeRows.
     bindE (findCompleteCols (grid gm)) (\<lambda>completeCols.
       let totalLines = length completeRows + length completeCols
       in if totalLines = 0 then Inr gm
          else
            let cellsToClear = getCellsToClear (grid gm) completeRows completeCols
            in bindE (clearCells (grid gm) cellsToClear) (\<lambda>g'.
                 Inr (addScore (gm\<lparr>grid := g'\<rparr>) (calculateLineBonus (int totalLines))))))"

text \<open>
  \<open>this.trayPieces[index] = null\<close>. An index past the end would lengthen the array and
  leave holes; \<open>every\<close> skips a hole and \<open>for ... of\<close> reads it as \<open>undefined\<close>, which
  \<open>!piece\<close> treats as \<open>null\<close>, so a hole is \<open>None\<close> as well.
\<close>

definition removePieceFromTray :: "game \<Rightarrow> nat \<Rightarrow> game" where
  "removePieceFromTray gm index =
     gm\<lparr>trayPieces :=
          (if index < length (trayPieces gm) then (trayPieces gm)[index := None]
           else trayPieces gm @ replicate (index - length (trayPieces gm)) None @ [None])\<rparr>"

definition refillTray :: "game \<Rightarrow> real \<times> real \<times> real \<Rightarrow> error + game" where
  "refillTray gm us = generateTrayPieces gm us"

definition checkAndRefillTray :: "game \<Rightarrow> real \<times> real \<times> real \<Rightarrow> error + game" where
  "checkAndRefillTray gm us =
     (let allPlaced = list_all (\<lambda>piece. piece = None) (trayPieces gm)
      in if allPlaced then refillTray gm us else Inr gm)"

text \<open>Step 1 of \<open>placePiece\<close>: the loop that fills the grid cells with the piece's colour.\<close>

fun placePiece_fill :: "grid \<Rightarrow> piece \<Rightarrow> int \<Rightarrow> int \<Rightarrow> (nat \<times> nat) list \<Rightarrow> error + grid" where
  "placePiece_fill g p gridRow gridCol [] = Inr g"
| "placePiece_fill g p gridRow gridCol ((r, c) # cells) =
     bindE (setCell g (gridRow + int r) (gridCol + int c) (color p))
       (\<lambda>g'. placePiece_fill g' p gridRow gridCol cells)"

text \<open>
  \<open>placePiece\<close> is an \<open>async\<close> method; its two \<open>await this.delay(...)\<close> only pace the
  animation, and while it runs \<open>isAnimating\<close> keeps \<open>handlePointerDown\<close> from starting
  another drag. The model runs its steps in their order, as one operation; a click on
  the New Game button during one of the delays, which would run \<open>startNewGame\<close> in
  between, is outside the model. \<open>us\<close> are the random numbers a refill would draw.
\<close>

definition placePiece ::
  "game \<Rightarrow> piece \<Rightarrow> int \<Rightarrow> int \<Rightarrow> nat \<Rightarrow> real \<times> real \<times> real \<Rightarrow> error + game" where
  "placePiece gm p gridRow gridCol trayIndex us =
     (let gm0 = gm\<lparr>isAnimating := True\<rparr>
      in bindE (getFilledCells p) (\<lambda>filledCells.
         bindE (placePiece_fill (grid gm0) p gridRow gridCol filledCells) (\<lambda>g1.
           let gm1 = gm0\<lparr>grid := g1\<rparr>;
               gm2 = removePieceFromTray gm1 trayIndex;
               placementPoints = int (length filledCells) * 10;
               gm3 = addScore gm2 placementPoints
           in bindE (checkAndClearLines gm3) (\<lambda>gm4.
              bindE (checkAndRefillTray gm4 us) (\<lambda>gm5.
              bindE (checkGameOver gm5) (\<lambda>over.
                if over then Inr (triggerGameOver (gm5\<lparr>isAnimating := False\<rparr>))
                else Inr (gm5\<lparr>isAnimating := False\<rparr>)))))))"

text \<open>
  \<open>DragController.handlePointerUp\<close>, as far as it acts on the game. \<open>dragging\<close>,
  \<open>draggedPiece\<close> and \<open>draggedPieceIndex\<close> are the fields that \<open>handlePointerDown\<close> set;
  \<open>gridPos\<close> is the result of \<open>pageToGrid\<close> and is \<open>None\<close> for a drop outside the grid.
\<close>

definition handlePointerUp ::
  "game \<Rightarrow> bool \<Rightarrow> piece \<Rightarrow> nat \<Rightarrow> (int \<times> int) option \<Rightarrow> real \<times> real \<times> real \<Rightarrow> error + game" where
  "handlePointerUp gm dragging draggedPiece draggedPieceIndex gridPos us =
     (if \<not> dragging then Inr gm
      else
        (case gridPos of
           None \<Rightarrow> Inr gm
         | Some (row, col) \<Rightarrow>
             bindE (canPlacePiece (grid gm) draggedPiece row col) (\<lambda>isValid.
               if isValid then placePiece gm draggedPiece row col draggedPieceIndex us
               else Inr gm)))"

subsection \<open>Auxiliary definitions\<close>

text \<open>The closed form of \<open>getFilledCells\<close>: the filled offsets in row-major order.\<close>

definition filledCells :: "piece \<Rightarrow> (nat \<times> nat) list" where
  "filledCells p =
     concat (map (\<lambda>row. map (Pair row)
       (filter (\<lambda>col. col < length (shape p ! row) \<and> shape p ! row ! col = 1) [0..<cols p]))
       [0..<rows p])"

text \<open>The contents of \<open>cellsSet\<close> when the two loops of \<open>getCellsToClear\<close> are done.\<close>

definition keysToClear :: "grid \<Rightarrow> nat list \<Rightarrow> nat list \<Rightarrow> string list" where
  "keysToClear g rs cs =
     fold (\<lambda>col. fold (\<lambda>row s. setAdd s (cellKey row col)) [0..<gridSize g]) cs
       (fold (\<lambda>row. fold (\<lambda>col s. setAdd s (cellKey row col)) [0..<gridSize g]) rs [])"



subsection \<open>Pieces, boards and games for the examples\<close>

text \<open>Pieces as the constructor builds them, and one of five cells that the catalog
  does not have.\<close>

definition line3h :: piece where
  "line3h = \<lparr>ptype = ''line3h'', shape = [[1, 1, 1]], color = ''#00D4FF'', rows = 1, cols = 3\<rparr>"

definition line3v :: piece where
  "line3v = \<lparr>ptype = ''line3v'', shape = [[1], [1], [1]], color = ''#00D4FF'', rows = 3, cols = 1\<rparr>"

definition square2 :: piece where
  "square2 =
     \<lparr>ptype = ''square2'', shape = [[1, 1], [1, 1]], color = ''#FFD700'', rows = 2, cols = 2\<rparr>"

definition lShape1 :: piece where
  "lShape1 =
     \<lparr>ptype = ''lShape1'', shape = [[1, 0], [1, 0], [1, 1]], color = ''#FF8C00'', rows = 3, cols = 2\<rparr>"

definition lShape4 :: piece where
  "lShape4 =
     \<lparr>ptype = ''lShape4'', shape = [[0, 0, 1], [1, 1, 1]], color = ''#FF8C00'', rows = 2, cols = 3\<rparr>"

definition sShape2 :: piece where
  "sShape2 =
     \<lparr>ptype = ''sShape2'', shape = [[1, 0], [1, 1], [0, 1]], color = ''#00E676'', rows = 3, cols = 2\<rparr>"

definition plus5 :: piece where
  "plus5 =
     \<lparr>ptype = ''plus5'', shape = [[0, 1, 0], [1, 1, 1], [0, 1, 0]], color = ''#FFFFFF'',
      rows = 3, cols = 3\<rparr>"

text \<open>A board whose row 0 and column 2 are full, in several colours.\<close>

definition board1 :: grid where
  "board1 =
     \<lparr>gridSize = 8,
      state =
        [[Color ''#00D4FF'', Color ''#FFD700'', Color ''#00D4FF'', Color ''#00D4FF'',
          Color ''#FF5252'', Color ''#00D4FF'', Color ''#00D4FF'', Color ''#00D4FF''],
         [Null, Null, Color ''#FF8C00'', Null, Null, Null, Null, Null],
         [Null, Null, Color ''#FF8C00'', Null, Null, Null, Null, Null],
         [Null, Null, Color ''#FF8C00'', Null, Null, Null, Null, Null],
         [Null, Null, Color ''#B388FF'', Null, Null, Null, Null, Null],
         [Null, Null, Color ''#B388FF'', Null, Null, Null, Null, Null],
         [Null, Null, Color ''#B388FF'', Null, Null, Null, Null, Null],
         [Color ''#00E676'', Null, Color ''#B388FF'', Null, Null, Null, Null, Null]]\<rparr>"

definition board_one_hole :: grid where
  "board_one_hole =
     \<lparr>gridSize = 8,
      state = (replicate 8 (replicate 8 (Color ''#FF5252'')))
                [3 := (replicate 8 (Color ''#FF5252''))[4 := Null]]\<rparr>"

definition board_cross :: grid where
  "board_cross =
     \<lparr>gridSize = 8,
      state =
        [[Null, Color ''#FFD700'', Color ''#FFD700'', Color ''#FF8C00'', Color ''#FF8C00'',
          Color ''#FF8C00'', Color ''#00E676'', Color ''#00E676''],
         [Null, Null, Null, Null, Null, Null, Color ''#00E676'', Color ''#00E676''],
         [Null, Null, Null, Null, Null, Null, Null, Null],
         [Color ''#B388FF'', Null, Null, Null, Null, Null, Null, Null],
         [Color ''#B388FF'', Color ''#B388FF'', Null, Null, Null, Null, Null, Null],
         [Color ''#B388FF'', Null, Null, Null, Null, Null, Null, Null],
         [Color ''#00D4FF'', Null, Null, Null, Null, Null, Null, Null],
         [Color ''#00D4FF'', Null, Null, Null, Null, Null, Null, Null]]\<rparr>"

definition board_cross_filled :: grid where
  "board_cross_filled =
     \<lparr>gridSize = 8,
      state =
        [[Color ''#00D4FF'', Color ''#FFD700'', Color ''#FFD700'', Color ''#FF8C00'',
          Color ''#FF8C00'', Color ''#FF8C00'', Color ''#00E676'', Color ''#00E676''],
         [Color ''#00D4FF'', Null, Null, Null, Null, Null, Color ''#00E676'', Color ''#00E676''],
         [Color ''#00D4FF'', Null, Null, Null, Null, Null, Null, Null],
         [Color ''#B388FF'', Null, Null, Null, Null, Null, Null, Null],
         [Color ''#B388FF'', Color ''#B388FF'', Null, Null, Null, Null, Null, Null],
         [Color ''#B388FF'', Null, Null, Null, Null, Null, Null, Null],
         [Color ''#00D4FF'', Null, Null, Null, Null, Null, Null, Null],
         [Color ''#00D4FF'', Null, Null, Null, Null, Null, Null, Null]]\<rparr>"

definition board_plus :: grid where
  "board_plus =
     \<lparr>gridSize = 8,
      state =
        [[Null, Null, Null, Null, Null, Null, Null, Null],
         [Null, Null, Null, Null, Null, Null, Null, Null],
         [Null, Null, Null, Null, Color ''#FFFFFF'', Null, Null, Null],
         [Null, Null, Null, Color ''#FFFFFF'', Color ''#FFFFFF'', Color ''#FFFFFF'', Null, Null],
         [Null, Null, Null, Null, Color ''#FFFFFF'', Null, Null, Null],
         [Null, Null, Null, Null, Null, Null, Null, Null],
         [Null, Null, Null, Null, Null, Null, Null, Null],
         [Null, Null, Null, Null, Null, Null, Null, Null]]\<rparr>"

definition game_stuck :: game where
  "game_stuck =
     \<lparr>grid = board_one_hole, score = 1234, trayPieces = [Some line3h, None, Some square2],
      isAnimating = False, isGameOver = False\<rparr>"

definition game_open :: game where
  "game_open =
     \<lparr>grid = board1, score = 40, trayPieces = [Some line3h, None, Some square2],
      isAnimating = False, isGameOver = False\<rparr>"

definition game_cross :: game where
  "game_cross =
     \<lparr>grid = board_cross, score = 120, trayPieces = [Some line3v, Some square2, None],
      isAnimating = False, isGameOver = False\<rparr>"

definition game_plus :: game where
  "game_plus =
     \<lparr>grid = Grid 8, score = 0, trayPieces = [None, Some plus5, Some line3h],
      isAnimating = False, isGameOver = False\<rparr>"

definition game_last :: game where
  "game_last =
     \<lparr>grid = Grid 8, score = 0, trayPieces = [None, Some square2, None],
      isAnimating = False, isGameOver = False\<rparr>"

section \<open>Basic facts\<close>

lemma bindE_Inr [simp]: "bindE (Inr x) f = f x"
  by (simp add: bindE_def)

lemma bindE_Inl [simp]: "bindE (Inl e) f = Inl e"
  by (simp add: bindE_def)

lemma bindE_eq_Inr: "bindE m f = Inr y \<longleftrightarrow> (\<exists>x. m = Inr x \<and> f x = Inr y)"
  by (cases m) simp_all

lemma wf_tray_iff: "wf_tray ps \<longleftrightarrow> (\<forall>p. Some p \<in> set ps \<longrightarrow> wf_piece p)"
  by (auto simp: wf_tray_def list_all_iff split: option.splits)

subsection \<open>Filled cells of a piece\<close>

lemma getFilledCells_cols_eq:
  assumes "row < length (shape p)"
  shows "getFilledCells_cols p row cs cells =
           Inr (cells @ map (Pair row)
                  (filter (\<lambda>col. col < length (shape p ! row) \<and> shape p ! row ! col = 1) cs))"
  using assms by (induction cs arbitrary: cells) (auto simp: shapeAt_def)

lemma getFilledCells_rows_eq:
  assumes "\<forall>row \<in> set rs. row < length (shape p)"
  shows "getFilledCells_rows p rs cells =
           Inr (cells @ concat (map (\<lambda>row. map (Pair row)
                  (filter (\<lambda>col. col < length (shape p ! row) \<and> shape p ! row ! col = 1)
                     [0..<cols p])) rs))"
  using assms by (induction rs arbitrary: cells) (simp_all add: getFilledCells_cols_eq)

lemma getFilledCells_wf: "wf_piece p \<Longrightarrow> getFilledCells p = Inr (filledCells p)"
  by (simp add: getFilledCells_def filledCells_def wf_piece_def getFilledCells_rows_eq)

subsection \<open>Reading the state of a well-formed grid\<close>

lemma wf_grid_row_length: "wf_grid g \<Longrightarrow> row < gridSize g \<Longrightarrow> length (state g ! row) = gridSize g"
  by (simp add: wf_grid_def)

lemma readCell_nat_wf:
  assumes "wf_grid g" and "row < gridSize g" and "col < gridSize g"
  shows "readCell (state g) row col = Inr (state g ! row ! col)"
  using assms wf_grid_row_length [OF assms(1,2)] by (simp add: readCell_def wf_grid_def)

lemma readCell_wf:
  assumes "wf_grid g" and "isValidCell g row col"
  shows "readCell (state g) (nat row) (nat col) = Inr (state g ! nat row ! nat col)"
proof -
  from assms(2) have "nat row < gridSize g" and "nat col < gridSize g"
    by (auto simp: isValidCell_def)
  then show ?thesis by (rule readCell_nat_wf [OF assms(1)])
qed

section \<open>Placement legality\<close>

lemma canPlacePiece_loop_wf:
  assumes "wf_grid g"
  shows "canPlacePiece_loop g r c cells =
           Inr (\<forall>(dr, dc) \<in> set cells.
                  isValidCell g (r + int dr) (c + int dc) \<and>
                  state g ! nat (r + int dr) ! nat (c + int dc) = Null)"
proof (induction cells)
  case Nil
  show ?case by simp
next
  case (Cons a cells)
  obtain dr dc where a: "a = (dr, dc)" by (cases a)
  show ?case
  proof (cases "isValidCell g (r + int dr) (c + int dc)")
    case False
    then show ?thesis by (simp add: a)
  next
    case True
    then show ?thesis
      using Cons.IH by (simp add: a readCell_wf [OF assms True])
  qed
qed

lemma canPlacePiece_wf:
  assumes "wf_grid g" and "getFilledCells p = Inr cells"
  shows "canPlacePiece g p r c =
           Inr (\<forall>(dr, dc) \<in> set cells.
                  isValidCell g (r + int dr) (c + int dc) \<and>
                  state g ! nat (r + int dr) ! nat (c + int dc) = Null)"
  using assms by (simp add: canPlacePiece_def canPlacePiece_loop_wf)

text \<open>
  Claim C1. On a grid whose state is \<open>N \<times> N\<close> (the game's grid has \<open>N = 8\<close>), for every
  piece and every anchor \<open>(r, c)\<close>, \<open>canPlacePiece\<close> returns true if and only if every
  filled offset \<open>(dr, dc)\<close> of the piece lands within the bounds, \<open>0 \<le> r + dr < N\<close> and
  \<open>0 \<le> c + dc < N\<close>, on a cell that holds \<open>null\<close>. It raises nothing.
\<close>

theorem canPlacePiece_iff:
  assumes "wf_grid g" and "getFilledCells p = Inr cells"
  shows "canPlacePiece g p r c =
           Inr (\<forall>(dr, dc) \<in> set cells.
                  0 \<le> r + int dr \<and> r + int dr < int (gridSize g) \<and>
                  0 \<le> c + int dc \<and> c + int dc < int (gridSize g) \<and>
                  state g ! nat (r + int dr) ! nat (c + int dc) = Null)"
proof -
  have "isValidCell g (r + int dr) (c + int dc) \<longleftrightarrow>
          0 \<le> r + int dr \<and> r + int dr < int (gridSize g) \<and>
          0 \<le> c + int dc \<and> c + int dc < int (gridSize g)" for dr dc
    by (simp add: isValidCell_def)
  then show ?thesis
    using canPlacePiece_wf [OF assms, of r c] by simp
qed

theorem canPlacePiece_iff_witness:
  "wf_grid (Grid 8) \<and>
   getFilledCells lShape1 = Inr [(0, 0), (1, 0), (2, 0), (2, 1)] \<and>
   canPlacePiece (Grid 8) lShape1 5 6 = Inr True \<and>
   canPlacePiece (Grid 8) lShape1 6 6 = Inr False"
proof -
  have w: "wf_grid (Grid 8)" by code_simp
  have c: "getFilledCells lShape1 = Inr [(0, 0), (1, 0), (2, 0), (2, 1)]" by code_simp
  have "canPlacePiece (Grid 8) lShape1 5 6 = Inr True"
    using canPlacePiece_iff [OF w c, of 5 6] by (simp add: Grid_def createEmptyState_def)
  moreover have "canPlacePiece (Grid 8) lShape1 6 6 = Inr False"
    using canPlacePiece_iff [OF w c, of 6 6] by (simp add: Grid_def)
  ultimately show ?thesis using w c by simp
qed

section \<open>The cell mutators\<close>

lemma writeCell_wf:
  assumes "wf_grid g" and "row < gridSize g" and "col < gridSize g"
  shows "writeCell (state g) row col v = Inr ((state g)[row := (state g ! row)[col := v]])"
  using assms wf_grid_row_length [OF assms(1,2)]
  by (simp add: writeCell_def arrayAssign_def wf_grid_def)

lemma wf_grid_update:
  assumes "wf_grid g"
  shows "wf_grid (g\<lparr>state := (state g)[row := (state g ! row)[col := v]]\<rparr>)"
proof (cases "row < length (state g)")
  case False
  then have "(state g)[row := (state g ! row)[col := v]] = state g"
    by (simp add: list_update_beyond)
  with assms show ?thesis by (simp add: wf_grid_def)
next
  case True
  then have len: "length ((state g ! row)[col := v]) = gridSize g"
    using assms by (simp add: wf_grid_def)
  have "length r = gridSize g" if "r \<in> set ((state g)[row := (state g ! row)[col := v]])" for r
  proof -
    from that have "r \<in> insert ((state g ! row)[col := v]) (set (state g))"
      using set_update_subset_insert by fastforce
    with len assms show ?thesis by (auto simp: wf_grid_def)
  qed
  with assms show ?thesis by (simp add: wf_grid_def)
qed

lemma setCell_wf:
  assumes "wf_grid g" and "isValidCell g row col"
  shows "setCell g row col c =
           Inr (g\<lparr>state := (state g)[nat row := (state g ! nat row)[nat col := Color c]]\<rparr>)"
proof -
  from assms(2) have "nat row < gridSize g" and "nat col < gridSize g"
    by (auto simp: isValidCell_def)
  then show ?thesis using assms by (simp add: setCell_def writeCell_wf)
qed

lemma clearCell_wf:
  assumes "wf_grid g" and "isValidCell g row col"
  shows "clearCell g row col =
           Inr (g\<lparr>state := (state g)[nat row := (state g ! nat row)[nat col := Null]]\<rparr>)"
proof -
  from assms(2) have "nat row < gridSize g" and "nat col < gridSize g"
    by (auto simp: isValidCell_def)
  then show ?thesis using assms by (simp add: clearCell_def writeCell_wf)
qed

lemma setCell_invalid: "\<not> isValidCell g row col \<Longrightarrow> setCell g row col c = Inr g"
  by (simp add: setCell_def)

lemma clearCell_invalid: "\<not> isValidCell g row col \<Longrightarrow> clearCell g row col = Inr g"
  by (simp add: clearCell_def)

text \<open>
  Claim C10. \<open>setCell\<close> and \<open>clearCell\<close> are total. For every row and column, negative or
  too large ones included, a position outside the bounds leaves the grid as it is: no
  array is indexed and nothing is raised. On a grid whose state is \<open>N \<times> N\<close> neither
  mutator ever raises, and the state stays \<open>N \<times> N\<close>, so no write falls outside it.
\<close>

theorem setCell_clearCell_total:
  "(\<not> isValidCell g row col \<longrightarrow> setCell g row col c = Inr g \<and> clearCell g row col = Inr g) \<and>
   (wf_grid g \<longrightarrow>
      (\<exists>g'. setCell g row col c = Inr g' \<and> wf_grid g' \<and> gridSize g' = gridSize g) \<and>
      (\<exists>g'. clearCell g row col = Inr g' \<and> wf_grid g' \<and> gridSize g' = gridSize g))"
proof (intro conjI impI)
  assume "\<not> isValidCell g row col"
  then show "setCell g row col c = Inr g" and "clearCell g row col = Inr g"
    by (simp_all add: setCell_invalid clearCell_invalid)
next
  assume w: "wf_grid g"
  show "\<exists>g'. setCell g row col c = Inr g' \<and> wf_grid g' \<and> gridSize g' = gridSize g"
  proof (cases "isValidCell g row col")
    case True
    show ?thesis
      using wf_grid_update [OF w] by (simp add: setCell_wf [OF w True])
  next
    case False
    with w show ?thesis by (simp add: setCell_invalid)
  qed
  show "\<exists>g'. clearCell g row col = Inr g' \<and> wf_grid g' \<and> gridSize g' = gridSize g"
  proof (cases "isValidCell g row col")
    case True
    show ?thesis
      using wf_grid_update [OF w] by (simp add: clearCell_wf [OF w True])
  next
    case False
    with w show ?thesis by (simp add: clearCell_invalid)
  qed
qed

theorem setCell_clearCell_total_witness:
  "\<not> isValidCell (Grid 8) (- 1) 3 \<and> \<not> isValidCell (Grid 8) 2 8 \<and> wf_grid (Grid 8) \<and>
   setCell (Grid 8) (- 1) 3 ''#FFD700'' = Inr (Grid 8) \<and>
   clearCell (Grid 8) 2 8 = Inr (Grid 8) \<and>
   (\<exists>g'. setCell (Grid 8) 2 3 ''#FFD700'' = Inr g' \<and> wf_grid g' \<and> gridSize g' = 8)"
proof -
  have a: "\<not> isValidCell (Grid 8) (- 1) 3" by (simp add: isValidCell_def Grid_def)
  have b: "\<not> isValidCell (Grid 8) 2 8" by (simp add: isValidCell_def Grid_def)
  have w: "wf_grid (Grid 8)" by code_simp
  have s: "gridSize (Grid 8) = 8" by (simp add: Grid_def)
  show ?thesis
    using setCell_clearCell_total [of "Grid 8" "- 1" 3 "''#FFD700''"]
      setCell_clearCell_total [of "Grid 8" 2 8 "''#FFD700''"]
      setCell_clearCell_total [of "Grid 8" 2 3 "''#FFD700''"] a b w s
    by simp
qed

section \<open>Line detection\<close>

lemma rowIsComplete_wf:
  assumes "wf_grid g" and "row < gridSize g" and "\<forall>col \<in> set cs. col < gridSize g"
  shows "rowIsComplete (state g) row cs = Inr (\<forall>col \<in> set cs. state g ! row ! col \<noteq> Null)"
  using assms(3)
proof (induction cs)
  case Nil
  show ?case by simp
next
  case (Cons col cs)
  then show ?case by (simp add: readCell_nat_wf [OF assms(1,2)])
qed

lemma colIsComplete_wf:
  assumes "wf_grid g" and "col < gridSize g" and "\<forall>row \<in> set rs. row < gridSize g"
  shows "colIsComplete (state g) col rs = Inr (\<forall>row \<in> set rs. state g ! row ! col \<noteq> Null)"
  using assms(3)
proof (induction rs)
  case Nil
  show ?case by simp
next
  case (Cons row rs)
  then show ?case by (simp add: readCell_nat_wf [OF assms(1) _ assms(2)])
qed

lemma findCompleteRows_loop_wf:
  assumes "wf_grid g" and "\<forall>row \<in> set rs. row < gridSize g"
  shows "findCompleteRows_loop g rs acc =
           Inr (acc @ filter (\<lambda>row. \<forall>col < gridSize g. state g ! row ! col \<noteq> Null) rs)"
  using assms(2)
proof (induction rs arbitrary: acc)
  case Nil
  show ?case by simp
next
  case (Cons row rs)
  then have "row < gridSize g" by simp
  then have "rowIsComplete (state g) row [0..<gridSize g] =
               Inr (\<forall>col < gridSize g. state g ! row ! col \<noteq> Null)"
    by (auto simp: rowIsComplete_wf [OF assms(1)])
  with Cons show ?case by simp
qed

lemma findCompleteCols_loop_wf:
  assumes "wf_grid g" and "\<forall>col \<in> set cs. col < gridSize g"
  shows "findCompleteCols_loop g cs acc =
           Inr (acc @ filter (\<lambda>col. \<forall>row < gridSize g. state g ! row ! col \<noteq> Null) cs)"
  using assms(2)
proof (induction cs arbitrary: acc)
  case Nil
  show ?case by simp
next
  case (Cons col cs)
  then have "col < gridSize g" by simp
  then have "colIsComplete (state g) col [0..<gridSize g] =
               Inr (\<forall>row < gridSize g. state g ! row ! col \<noteq> Null)"
    by (auto simp: colIsComplete_wf [OF assms(1)])
  with Cons show ?case by simp
qed

lemma findCompleteRows_wf:
  "wf_grid g \<Longrightarrow>
   findCompleteRows g =
     Inr (filter (\<lambda>row. \<forall>col < gridSize g. state g ! row ! col \<noteq> Null) [0..<gridSize g])"
  by (simp add: findCompleteRows_def findCompleteRows_loop_wf)

lemma findCompleteCols_wf:
  "wf_grid g \<Longrightarrow>
   findCompleteCols g =
     Inr (filter (\<lambda>col. \<forall>row < gridSize g. state g ! row ! col \<noteq> Null) [0..<gridSize g])"
  by (simp add: findCompleteCols_def findCompleteCols_loop_wf)

lemma sorted_wrt_less_filter_upt: "sorted_wrt (<) (filter P [0..<n])"
  by (rule sorted_wrt_filter) (simp add: sorted_wrt_upt)

text \<open>
  Claim C9. On a grid whose state is \<open>N \<times> N\<close>, \<open>findCompleteRows\<close> returns exactly the
  indices of the rows in which all \<open>N\<close> cells are not \<open>null\<close>, whatever their colours,
  and \<open>findCompleteCols\<close> does the same for the columns; each list is in strictly
  ascending order. Both are functions of the one grid state and change nothing, so
  neither detection depends on the other: a cell can lie in a complete row and in a
  complete column at once.
\<close>

theorem findComplete_lines:
  assumes "wf_grid g"
  shows "\<exists>completeRows completeCols.
           findCompleteRows g = Inr completeRows \<and>
           findCompleteCols g = Inr completeCols \<and>
           sorted_wrt (<) completeRows \<and> sorted_wrt (<) completeCols \<and>
           set completeRows =
             {row. row < gridSize g \<and> (\<forall>col < gridSize g. state g ! row ! col \<noteq> Null)} \<and>
           set completeCols =
             {col. col < gridSize g \<and> (\<forall>row < gridSize g. state g ! row ! col \<noteq> Null)}"
  using assms
  by (auto simp: findCompleteRows_wf findCompleteCols_wf sorted_wrt_less_filter_upt)

theorem findComplete_lines_witness:
  "wf_grid board1 \<and> findCompleteRows board1 = Inr [0] \<and> findCompleteCols board1 = Inr [2] \<and>
   (\<exists>completeRows completeCols.
           findCompleteRows board1 = Inr completeRows \<and>
           findCompleteCols board1 = Inr completeCols \<and>
           sorted_wrt (<) completeRows \<and> sorted_wrt (<) completeCols \<and>
           set completeRows =
             {row. row < gridSize board1 \<and> (\<forall>col < gridSize board1. state board1 ! row ! col \<noteq> Null)} \<and>
           set completeCols =
             {col. col < gridSize board1 \<and> (\<forall>row < gridSize board1. state board1 ! row ! col \<noteq> Null)})"
proof -
  have w: "wf_grid board1" by code_simp
  have r: "findCompleteRows board1 = Inr [0]" by code_simp
  have c: "findCompleteCols board1 = Inr [2]" by code_simp
  show ?thesis using findComplete_lines [OF w] w r c by simp
qed

section \<open>The cells of completed lines\<close>

subsection \<open>Keys\<close>

declare digits.simps [simp del]

lemma digit_not_comma: "(d::nat) < 10 \<Longrightarrow> char_of (48 + d) \<noteq> CHR '',''"
proof
  assume d: "d < 10" and "char_of (48 + d) = CHR '',''"
  then have "(of_char (char_of (48 + d)) :: nat) = of_char CHR '',''" by simp
  with d show False by simp
qed

lemma comma_notin_digits: "CHR '','' \<notin> set (digits n)"
proof (induction n rule: digits.induct)
  case (1 n)
  show ?case
  proof (cases "n < 10")
    case True
    then show ?thesis using digit_not_comma [of n] by (auto simp: digits.simps [of n])
  next
    case False
    moreover have "n mod 10 < 10" by simp
    ultimately show ?thesis
      using 1 digit_not_comma [of "n mod 10"] by (auto simp: digits.simps [of n])
  qed
qed

lemma Number_snoc: "Number (s @ [ch]) = 10 * Number s + (of_char ch - 48)"
  by (simp add: Number_def)

lemma Number_digits: "Number (digits n) = n"
proof (induction n rule: digits.induct)
  case (1 n)
  show ?case
  proof (cases "n < 10")
    case True
    then show ?thesis by (simp add: digits.simps [of n] Number_def)
  next
    case False
    moreover have "n mod 10 < 10" by simp
    ultimately show ?thesis
      using 1 by (simp add: digits.simps [of n] Number_snoc)
  qed
qed

lemma keyCell_cellKey: "keyCell (cellKey row col) = (row, col)"
proof -
  have n: "ch \<noteq> CHR '',''" if "ch \<in> set (digits row)" for ch
    using that comma_notin_digits [of row] by auto
  have t: "takeWhile (\<lambda>ch. ch \<noteq> CHR '','') (cellKey row col) = digits row"
    using n by (simp add: cellKey_def takeWhile_append2)
  have "dropWhile (\<lambda>ch. ch \<noteq> CHR '','') (cellKey row col) = CHR '','' # digits col"
    using n by (simp add: cellKey_def dropWhile_append2)
  with t show ?thesis by (simp add: keyCell_def splitComma_def Number_digits Let_def)
qed

lemma cellKey_inject: "cellKey r c = cellKey r' c' \<longleftrightarrow> r = r' \<and> c = c'"
  by (metis keyCell_cellKey prod.inject)

subsection \<open>The set of keys\<close>

lemma set_fold_setAdd: "set (fold (\<lambda>x s. setAdd s (f x)) xs s) = set s \<union> f ` set xs"
  by (induction xs arbitrary: s) (auto simp: setAdd_def)

lemma distinct_fold_setAdd:
  "distinct s \<Longrightarrow> distinct (fold (\<lambda>x s. setAdd s (f x)) xs s)"
  by (induction xs arbitrary: s) (auto simp: setAdd_def)

lemma set_fold_fold_setAdd:
  "set (fold (\<lambda>x. fold (\<lambda>y s. setAdd s (f x y)) ys) xs s) =
     set s \<union> {f x y | x y. x \<in> set xs \<and> y \<in> set ys}"
proof (induction xs arbitrary: s)
  case Nil
  show ?case by simp
next
  case (Cons x xs)
  show ?case by (simp add: Cons.IH set_fold_setAdd) blast
qed

lemma distinct_fold_fold_setAdd:
  "distinct s \<Longrightarrow> distinct (fold (\<lambda>x. fold (\<lambda>y s. setAdd s (f x y)) ys) xs s)"
  by (induction xs arbitrary: s) (simp_all add: distinct_fold_setAdd)

lemma getCellsToClear_keys: "getCellsToClear g rs cs = map keyCell (keysToClear g rs cs)"
  by (simp add: getCellsToClear_def keysToClear_def)

lemma set_keysToClear:
  "set (keysToClear g rs cs) =
     {cellKey row col | row col. row \<in> set rs \<and> col < gridSize g} \<union>
     {cellKey row col | row col. col \<in> set cs \<and> row < gridSize g}"
proof -
  have "set (fold (\<lambda>col. fold (\<lambda>row s. setAdd s (cellKey row col)) [0..<gridSize g]) cs s) =
          set s \<union> {cellKey row col | row col. col \<in> set cs \<and> row < gridSize g}" for s
    using set_fold_fold_setAdd [of "\<lambda>col row. cellKey row col" "[0..<gridSize g]" cs s]
    by auto
  moreover have
    "set (fold (\<lambda>row. fold (\<lambda>col s. setAdd s (cellKey row col)) [0..<gridSize g]) rs []) =
       {cellKey row col | row col. row \<in> set rs \<and> col < gridSize g}"
    using set_fold_fold_setAdd [of cellKey "[0..<gridSize g]" rs "[]"] by auto
  ultimately show ?thesis by (simp add: keysToClear_def)
qed

lemma distinct_keysToClear: "distinct (keysToClear g rs cs)"
proof -
  have "distinct (fold (\<lambda>row. fold (\<lambda>col s. setAdd s (cellKey row col)) [0..<gridSize g]) rs [])"
    using distinct_fold_fold_setAdd [of "[]" cellKey] by simp
  then show ?thesis
    unfolding keysToClear_def
    by (rule distinct_fold_fold_setAdd [of _ "\<lambda>col row. cellKey row col"])
qed

lemma set_getCellsToClear:
  "set (getCellsToClear g rs cs) =
     {(row, col). row \<in> set rs \<and> col < gridSize g} \<union>
     {(row, col). col \<in> set cs \<and> row < gridSize g}"
proof -
  let ?S = "{(row, col). row \<in> set rs \<and> col < gridSize g} \<union>
            {(row, col). col \<in> set cs \<and> row < gridSize g}"
  have "set (keysToClear g rs cs) = (\<lambda>(row, col). cellKey row col) ` ?S"
    by (auto simp: set_keysToClear)
  then have "set (getCellsToClear g rs cs) = (\<lambda>rc. keyCell (case rc of (row, col) \<Rightarrow> cellKey row col)) ` ?S"
    by (simp add: getCellsToClear_keys image_image)
  also have "\<dots> = (\<lambda>rc. rc) ` ?S"
    by (rule image_cong) (auto simp: keyCell_cellKey)
  finally show ?thesis by simp
qed

lemma distinct_getCellsToClear: "distinct (getCellsToClear g rs cs)"
proof -
  have "inj_on keyCell (set (keysToClear g rs cs))"
    by (rule inj_onI) (auto simp: set_keysToClear keyCell_cellKey)
  then show ?thesis
    by (simp add: getCellsToClear_keys distinct_map distinct_keysToClear)
qed

lemma card_row_col:
  assumes "row < n" and "col < n"
  shows "card ({(r, c). r = row \<and> c < n} \<union> {(r, c). c = col \<and> r < n}) = 2 * n - 1"
proof -
  let ?A = "{row} \<times> {..<n}" and ?B = "{..<n} \<times> {col}"
  have eq: "{(r, c). r = row \<and> c < n} \<union> {(r, c). c = col \<and> r < n} = ?A \<union> ?B" by auto
  have int: "?A \<inter> ?B = {(row, col)}" using assms by auto
  have "card ?A + card ?B = card (?A \<union> ?B) + card (?A \<inter> ?B)"
    by (rule card_Un_Int) simp_all
  then have "card (?A \<union> ?B) = 2 * n - 1" by (simp add: int)
  then show ?thesis by (simp only: eq)
qed

text \<open>
  Claim C5. \<open>getCellsToClear(rows, cols)\<close> returns, without repetition, exactly the cells
  of the listed rows (all \<open>N\<close> columns of each) and of the listed columns (all \<open>N\<close>
  rows of each): a cell where a listed row crosses a listed column occurs once. For
  one row and one column of the grid that is \<open>2N - 1\<close> cells, and 15 on the \<open>8 \<times> 8\<close>
  grid, not 16.
\<close>

theorem getCellsToClear_union:
  "distinct (getCellsToClear g rs cs) \<and>
   set (getCellsToClear g rs cs) =
     {(row, col). row \<in> set rs \<and> col < gridSize g} \<union>
     {(row, col). col \<in> set cs \<and> row < gridSize g} \<and>
   (row < gridSize g \<and> col < gridSize g \<longrightarrow>
      length (getCellsToClear g [row] [col]) = 2 * gridSize g - 1) \<and>
   (gridSize g = 8 \<and> row < 8 \<and> col < 8 \<longrightarrow> length (getCellsToClear g [row] [col]) = 15)"
proof -
  have len: "length (getCellsToClear g [row] [col]) = 2 * gridSize g - 1"
    if "row < gridSize g" and "col < gridSize g"
  proof -
    have "length (getCellsToClear g [row] [col]) = card (set (getCellsToClear g [row] [col]))"
      by (simp add: distinct_card distinct_getCellsToClear)
    also have "\<dots> = 2 * gridSize g - 1"
      using card_row_col [OF that] by (simp add: set_getCellsToClear)
    finally show ?thesis .
  qed
  show ?thesis
    using len by (simp add: distinct_getCellsToClear set_getCellsToClear)
qed

theorem getCellsToClear_union_witness:
  "gridSize (Grid 8) = 8 \<and> (1::nat) < 8 \<and> (2::nat) < 8 \<and>
   length (getCellsToClear (Grid 8) [1] [2]) = 15 \<and>
   getCellsToClear (Grid 8) [1] [2] =
     [(1, 0), (1, 1), (1, 2), (1, 3), (1, 4), (1, 5), (1, 6), (1, 7),
      (0, 2), (2, 2), (3, 2), (4, 2), (5, 2), (6, 2), (7, 2)]"
proof -
  have s: "gridSize (Grid 8) = 8" by (simp add: Grid_def)
  have e: "getCellsToClear (Grid 8) [1] [2] =
     [(1, 0), (1, 1), (1, 2), (1, 3), (1, 4), (1, 5), (1, 6), (1, 7),
      (0, 2), (2, 2), (3, 2), (4, 2), (5, 2), (6, 2), (7, 2)]"
    by code_simp
  show ?thesis
    using getCellsToClear_union [of "Grid 8" "[1]" "[2]" 1 2] s e by simp
qed

section \<open>Placing the cells of a piece\<close>

lemma nth_grid_update:
  assumes "wf_grid g" and "i < gridSize g" and "j < gridSize g"
    and "row < gridSize g" and "col < gridSize g"
  shows "(state g)[i := (state g ! i)[j := v]] ! row ! col =
           (if row = i \<and> col = j then v else state g ! row ! col)"
proof -
  have "length (state g) = gridSize g" using assms(1) by (simp add: wf_grid_def)
  moreover have "length (state g ! i) = gridSize g"
    using assms(1,2) by (rule wf_grid_row_length)
  ultimately show ?thesis using assms(2-5) by (auto simp: nth_list_update)
qed

lemma placePiece_fill_wf:
  assumes "wf_grid g"
  shows "\<exists>g'. placePiece_fill g p r c cells = Inr g' \<and> wf_grid g' \<and> gridSize g' = gridSize g \<and>
           (\<forall>row < gridSize g. \<forall>col < gridSize g.
              state g' ! row ! col =
                (if \<exists>(dr, dc) \<in> set cells. r + int dr = int row \<and> c + int dc = int col
                 then Color (color p) else state g ! row ! col))"
  using assms
proof (induction cells arbitrary: g)
  case Nil
  then show ?case by simp
next
  case (Cons a cells)
  obtain dr dc where a: "a = (dr, dc)" by (cases a)
  let ?tr = "r + int dr" and ?tc = "c + int dc"
  show ?case
  proof (cases "isValidCell g ?tr ?tc")
    case False
    then have ne: "\<not> (?tr = int row \<and> ?tc = int col)"
      if "row < gridSize g" and "col < gridSize g" for row col
      using that by (auto simp: isValidCell_def)
    from Cons.IH [OF Cons.prems] obtain g' where
      "placePiece_fill g p r c cells = Inr g'" "wf_grid g'" "gridSize g' = gridSize g"
      and st: "\<forall>row < gridSize g. \<forall>col < gridSize g.
              state g' ! row ! col =
                (if \<exists>(dr, dc) \<in> set cells. r + int dr = int row \<and> c + int dc = int col
                 then Color (color p) else state g ! row ! col)"
      by blast
    then show ?thesis
      using False ne by (auto simp: a setCell_invalid)
  next
    case True
    let ?g1 = "g\<lparr>state := (state g)[nat ?tr := (state g ! nat ?tr)[nat ?tc := Color (color p)]]\<rparr>"
    from True have i: "nat ?tr < gridSize g" and j: "nat ?tc < gridSize g"
      and nn: "0 \<le> ?tr" "0 \<le> ?tc"
      by (auto simp: isValidCell_def)
    have w1: "wf_grid ?g1" using Cons.prems by (rule wf_grid_update)
    have s1: "setCell g ?tr ?tc (color p) = Inr ?g1"
      using Cons.prems True by (rule setCell_wf)
    from Cons.IH [OF w1] obtain g' where
      f: "placePiece_fill ?g1 p r c cells = Inr g'" and w: "wf_grid g'"
      and sz: "gridSize g' = gridSize g"
      and st: "\<forall>row < gridSize g. \<forall>col < gridSize g.
              state g' ! row ! col =
                (if \<exists>(dr, dc) \<in> set cells. r + int dr = int row \<and> c + int dc = int col
                 then Color (color p) else state ?g1 ! row ! col)"
      by auto
    have "state g' ! row ! col =
            (if \<exists>(dr, dc) \<in> set (a # cells). r + int dr = int row \<and> c + int dc = int col
             then Color (color p) else state g ! row ! col)"
      if rc: "row < gridSize g" "col < gridSize g" for row col
    proof -
      have "(state g)[nat ?tr := (state g ! nat ?tr)[nat ?tc := Color (color p)]] ! row ! col =
              (if row = nat ?tr \<and> col = nat ?tc then Color (color p) else state g ! row ! col)"
        by (rule nth_grid_update [OF Cons.prems i j rc])
      moreover have "(row = nat ?tr \<and> col = nat ?tc) \<longleftrightarrow> (?tr = int row \<and> ?tc = int col)"
        using nn by auto
      ultimately have g1: "state ?g1 ! row ! col =
              (if ?tr = int row \<and> ?tc = int col then Color (color p) else state g ! row ! col)"
        by simp
      from st rc have "state g' ! row ! col =
                (if \<exists>(dr, dc) \<in> set cells. r + int dr = int row \<and> c + int dc = int col
                 then Color (color p) else state ?g1 ! row ! col)"
        by blast
      then show ?thesis unfolding g1 by (auto simp: a)
    qed
    with f w sz s1 show ?thesis by (simp add: a)
  qed
qed

text \<open>
  Claim C8. The first step of \<open>placePiece\<close> is the placement proper: the loop that
  calls \<open>setCell\<close> for each filled offset. Under the precondition that \<open>canPlacePiece\<close>
  holds at the anchor \<open>(r, c)\<close>, the loop raises nothing, sets each cell
  \<open>(r + dr, c + dc)\<close> of a filled offset to the piece's colour, and leaves every
  other cell of the board with its previous value.
\<close>

theorem placePiece_fill_frame:
  assumes "wf_grid g" and "getFilledCells p = Inr cells" and "canPlacePiece g p r c = Inr True"
  shows "\<exists>g'. placePiece_fill g p r c cells = Inr g' \<and> wf_grid g' \<and> gridSize g' = gridSize g \<and>
           (\<forall>(dr, dc) \<in> set cells.
              state g' ! nat (r + int dr) ! nat (c + int dc) = Color (color p)) \<and>
           (\<forall>row < gridSize g. \<forall>col < gridSize g.
              (\<forall>(dr, dc) \<in> set cells. (r + int dr, c + int dc) \<noteq> (int row, int col)) \<longrightarrow>
              state g' ! row ! col = state g ! row ! col)"
proof -
  from assms have ok: "\<forall>(dr, dc) \<in> set cells.
                  0 \<le> r + int dr \<and> r + int dr < int (gridSize g) \<and>
                  0 \<le> c + int dc \<and> c + int dc < int (gridSize g) \<and>
                  state g ! nat (r + int dr) ! nat (c + int dc) = Null"
    by (simp add: canPlacePiece_wf [OF assms(1,2)] isValidCell_def)
  from placePiece_fill_wf [OF assms(1), of p r c cells] obtain g' where
    f: "placePiece_fill g p r c cells = Inr g'" and w: "wf_grid g'"
    and sz: "gridSize g' = gridSize g"
    and st: "\<forall>row < gridSize g. \<forall>col < gridSize g.
              state g' ! row ! col =
                (if \<exists>(dr, dc) \<in> set cells. r + int dr = int row \<and> c + int dc = int col
                 then Color (color p) else state g ! row ! col)"
    by blast
  have filled: "state g' ! nat (r + int dr) ! nat (c + int dc) = Color (color p)"
    if "(dr, dc) \<in> set cells" for dr dc
  proof -
    from ok that have b: "0 \<le> r + int dr" "r + int dr < int (gridSize g)"
      "0 \<le> c + int dc" "c + int dc < int (gridSize g)"
      by auto
    then have "nat (r + int dr) < gridSize g" "nat (c + int dc) < gridSize g" by auto
    moreover have "\<exists>(dr', dc') \<in> set cells.
        r + int dr' = int (nat (r + int dr)) \<and> c + int dc' = int (nat (c + int dc))"
      using that b by (intro bexI [of _ "(dr, dc)"]) auto
    ultimately show ?thesis using st by simp
  qed
  have frame: "state g' ! row ! col = state g ! row ! col"
    if "row < gridSize g" "col < gridSize g"
      and "\<forall>(dr, dc) \<in> set cells. (r + int dr, c + int dc) \<noteq> (int row, int col)" for row col
  proof -
    from that(3) have "\<not> (\<exists>(dr, dc) \<in> set cells. r + int dr = int row \<and> c + int dc = int col)"
      by auto
    with st that(1,2) show ?thesis by simp
  qed
  from f w sz filled frame show ?thesis by (intro exI [of _ g']) auto
qed

text \<open>On the board with a full row 0 and a full column 2, the L-shaped piece fits at
  anchor (1, 0).\<close>

theorem placePiece_fill_frame_witness:
  "wf_grid board1 \<and>
   getFilledCells lShape1 = Inr [(0, 0), (1, 0), (2, 0), (2, 1)] \<and>
   canPlacePiece board1 lShape1 1 0 = Inr True \<and>
   placePiece_fill board1 lShape1 1 0 [(0, 0), (1, 0), (2, 0), (2, 1)] =
     Inr \<lparr>gridSize = 8,
          state =
            [[Color ''#00D4FF'', Color ''#FFD700'', Color ''#00D4FF'', Color ''#00D4FF'',
              Color ''#FF5252'', Color ''#00D4FF'', Color ''#00D4FF'', Color ''#00D4FF''],
             [Color ''#FF8C00'', Null, Color ''#FF8C00'', Null, Null, Null, Null, Null],
             [Color ''#FF8C00'', Null, Color ''#FF8C00'', Null, Null, Null, Null, Null],
             [Color ''#FF8C00'', Color ''#FF8C00'', Color ''#FF8C00'', Null, Null, Null, Null, Null],
             [Null, Null, Color ''#B388FF'', Null, Null, Null, Null, Null],
             [Null, Null, Color ''#B388FF'', Null, Null, Null, Null, Null],
             [Null, Null, Color ''#B388FF'', Null, Null, Null, Null, Null],
             [Color ''#00E676'', Null, Color ''#B388FF'', Null, Null, Null, Null, Null]]\<rparr> \<and>
   (\<exists>g'. placePiece_fill board1 lShape1 1 0 [(0, 0), (1, 0), (2, 0), (2, 1)] = Inr g' \<and>
          state g' ! 3 ! 1 = Color ''#FF8C00'' \<and> state g' ! 7 ! 0 = state board1 ! 7 ! 0)"
proof -
  have w: "wf_grid board1" by code_simp
  have c: "getFilledCells lShape1 = Inr [(0, 0), (1, 0), (2, 0), (2, 1)]" by code_simp
  have ok: "canPlacePiece board1 lShape1 1 0 = Inr True" by code_simp
  have r: "placePiece_fill board1 lShape1 1 0 [(0, 0), (1, 0), (2, 0), (2, 1)] =
     Inr \<lparr>gridSize = 8,
          state =
            [[Color ''#00D4FF'', Color ''#FFD700'', Color ''#00D4FF'', Color ''#00D4FF'',
              Color ''#FF5252'', Color ''#00D4FF'', Color ''#00D4FF'', Color ''#00D4FF''],
             [Color ''#FF8C00'', Null, Color ''#FF8C00'', Null, Null, Null, Null, Null],
             [Color ''#FF8C00'', Null, Color ''#FF8C00'', Null, Null, Null, Null, Null],
             [Color ''#FF8C00'', Color ''#FF8C00'', Color ''#FF8C00'', Null, Null, Null, Null, Null],
             [Null, Null, Color ''#B388FF'', Null, Null, Null, Null, Null],
             [Null, Null, Color ''#B388FF'', Null, Null, Null, Null, Null],
             [Null, Null, Color ''#B388FF'', Null, Null, Null, Null, Null],
             [Color ''#00E676'', Null, Color ''#B388FF'', Null, Null, Null, Null, Null]]\<rparr>"
    by code_simp
  have s: "gridSize board1 = 8" by (simp add: board1_def)
  from placePiece_fill_frame [OF w c ok] obtain g' where
    f: "placePiece_fill board1 lShape1 1 0 [(0, 0), (1, 0), (2, 0), (2, 1)] = Inr g'"
    and filled: "\<forall>(dr, dc) \<in> set [(0, 0), (1, 0), (2, 0), (2, 1)].
              state g' ! nat (1 + int dr) ! nat (0 + int dc) = Color (color lShape1)"
    and frame: "\<forall>row < gridSize board1. \<forall>col < gridSize board1.
              (\<forall>(dr, dc) \<in> set [(0, 0), (1, 0), (2, 0), (2, 1)].
                 (1 + int dr, 0 + int dc) \<noteq> (int row, int col)) \<longrightarrow>
              state g' ! row ! col = state board1 ! row ! col"
    by blast
  from filled have "state g' ! 3 ! 1 = Color ''#FF8C00''" by (simp add: lShape1_def)
  moreover from frame have "state g' ! 7 ! 0 = state board1 ! 7 ! 0"
    unfolding s by (simp add: nat_add_distrib)
  ultimately show ?thesis using w c ok r f by blast
qed

section \<open>Game-over detection\<close>

lemma canPieceFitAnywhere_cols_wf:
  assumes "wf_grid g" and "getFilledCells p = Inr cells"
  shows "canPieceFitAnywhere_cols g p row cs =
           Inr (\<exists>col \<in> set cs. canPlacePiece g p row col = Inr True)"
proof (induction cs)
  case Nil
  show ?case by simp
next
  case (Cons col cs)
  obtain b where b: "canPlacePiece g p row col = Inr b"
    using canPlacePiece_wf [OF assms] by blast
  show ?case using Cons.IH by (cases b) (simp_all add: b)
qed

lemma canPieceFitAnywhere_rows_wf:
  assumes "wf_grid g" and "getFilledCells p = Inr cells"
  shows "canPieceFitAnywhere_rows g p maxCol rs =
           Inr (\<exists>row \<in> set rs. \<exists>col \<in> {0..maxCol}. canPlacePiece g p row col = Inr True)"
proof (induction rs)
  case Nil
  show ?case by simp
next
  case (Cons row rs)
  show ?case
    using Cons.IH by (simp add: canPieceFitAnywhere_cols_wf [OF assms])
qed

lemma canPieceFitAnywhere_wf:
  assumes "wf_grid (grid gm)" and "getFilledCells p = Inr cells"
  shows "canPieceFitAnywhere gm p =
           Inr (\<exists>row col. 0 \<le> row \<and> row \<le> int (gridSize (grid gm)) - int (rows p) \<and>
                          0 \<le> col \<and> col \<le> int (gridSize (grid gm)) - int (cols p) \<and>
                          canPlacePiece (grid gm) p row col = Inr True)"
proof -
  have "(\<exists>row \<in> {0..int (gridSize (grid gm)) - int (rows p)}.
          \<exists>col \<in> {0..int (gridSize (grid gm)) - int (cols p)}.
            canPlacePiece (grid gm) p row col = Inr True) \<longleftrightarrow>
        (\<exists>row col. 0 \<le> row \<and> row \<le> int (gridSize (grid gm)) - int (rows p) \<and>
                          0 \<le> col \<and> col \<le> int (gridSize (grid gm)) - int (cols p) \<and>
                          canPlacePiece (grid gm) p row col = Inr True)"
    unfolding Bex_def atLeastAtMost_iff by blast
  then show ?thesis
    by (simp add: canPieceFitAnywhere_def canPieceFitAnywhere_rows_wf [OF assms])
qed

lemma checkGameOver_loop_wf:
  assumes "wf_grid (grid gm)" and "wf_tray ps"
  shows "checkGameOver_loop gm ps =
           Inr (\<not> (\<exists>p. Some p \<in> set ps \<and> canPieceFitAnywhere gm p = Inr True))"
  using assms(2) unfolding wf_tray_iff
proof (induction ps)
  case Nil
  show ?case by simp
next
  case (Cons a ps)
  show ?case
  proof (cases a)
    case None
    with Cons show ?thesis by simp
  next
    case (Some p)
    with Cons.prems have "wf_piece p" by simp
    then have "getFilledCells p = Inr (filledCells p)" by (rule getFilledCells_wf)
    then obtain b where b: "canPieceFitAnywhere gm p = Inr b"
      using canPieceFitAnywhere_wf [OF assms(1)] by blast
    show ?thesis using Cons by (cases b) (auto simp: Some b)
  qed
qed

text \<open>
  Claim C6. \<open>checkGameOver\<close> returns false (a legal move exists) if and only if some
  tray slot that is not \<open>null\<close> holds a piece with an anchor \<open>(row, col)\<close>,
  \<open>0 \<le> row \<le> N - rows\<close> and \<open>0 \<le> col \<le> N - cols\<close>, at which \<open>canPlacePiece\<close> succeeds;
  it returns true (game over) when no tray piece has such an anchor. Every anchor of
  that range is searched, not only the origin. The grid state is \<open>N \<times> N\<close> and the tray
  pieces are as the constructor builds them.
\<close>

theorem checkGameOver_iff:
  assumes "wf_grid (grid gm)" and "wf_tray (trayPieces gm)"
  shows "checkGameOver gm =
           Inr (\<not> (\<exists>p row col. Some p \<in> set (trayPieces gm) \<and>
                     0 \<le> row \<and> row \<le> int (gridSize (grid gm)) - int (rows p) \<and>
                     0 \<le> col \<and> col \<le> int (gridSize (grid gm)) - int (cols p) \<and>
                     canPlacePiece (grid gm) p row col = Inr True))"
proof -
  have "canPieceFitAnywhere gm p = Inr True \<longleftrightarrow>
          (\<exists>row col. 0 \<le> row \<and> row \<le> int (gridSize (grid gm)) - int (rows p) \<and>
                     0 \<le> col \<and> col \<le> int (gridSize (grid gm)) - int (cols p) \<and>
                     canPlacePiece (grid gm) p row col = Inr True)"
    if "Some p \<in> set (trayPieces gm)" for p
  proof -
    from that assms(2) have "getFilledCells p = Inr (filledCells p)"
      by (simp add: getFilledCells_wf wf_tray_iff)
    then show ?thesis by (simp add: canPieceFitAnywhere_wf [OF assms(1)])
  qed
  then have "(\<exists>p. Some p \<in> set (trayPieces gm) \<and> canPieceFitAnywhere gm p = Inr True) \<longleftrightarrow>
             (\<exists>p row col. Some p \<in> set (trayPieces gm) \<and>
                     0 \<le> row \<and> row \<le> int (gridSize (grid gm)) - int (rows p) \<and>
                     0 \<le> col \<and> col \<le> int (gridSize (grid gm)) - int (cols p) \<and>
                     canPlacePiece (grid gm) p row col = Inr True)"
    by blast
  then show ?thesis
    by (simp add: checkGameOver_def checkGameOver_loop_wf [OF assms])
qed

text \<open>
  Two games. In the first the board is full except for the cell (3, 4) and the tray
  holds a line of three and a square: no anchor is legal, the game is over. In the
  second the same tray faces the board with a full row 0 and a full column 2, where
  the line fits at anchor (1, 3).
\<close>

lemma wf_piece_line3h: "wf_piece line3h"
  by (simp add: wf_piece_def line3h_def)

lemma wf_piece_square2: "wf_piece square2"
  by (simp add: wf_piece_def square2_def)

theorem checkGameOver_iff_witness:
  "wf_grid (grid game_stuck) \<and> wf_grid (grid game_open) \<and>
   wf_tray (trayPieces game_stuck) \<and> wf_tray (trayPieces game_open) \<and>
   checkGameOver game_stuck = Inr True \<and>
   \<not> (\<exists>p row col. Some p \<in> set (trayPieces game_stuck) \<and>
          0 \<le> row \<and> row \<le> int (gridSize (grid game_stuck)) - int (rows p) \<and>
          0 \<le> col \<and> col \<le> int (gridSize (grid game_stuck)) - int (cols p) \<and>
          canPlacePiece (grid game_stuck) p row col = Inr True) \<and>
   canPlacePiece (grid game_open) line3h 1 3 = Inr True \<and>
   checkGameOver game_open = Inr False"
proof -
  have w1: "wf_grid (grid game_stuck)" by code_simp
  have w2: "wf_grid (grid game_open)" by code_simp
  have t1: "wf_tray (trayPieces game_stuck)"
    by (simp add: wf_tray_def game_stuck_def wf_piece_line3h wf_piece_square2)
  have t2: "wf_tray (trayPieces game_open)"
    by (simp add: wf_tray_def game_open_def wf_piece_line3h wf_piece_square2)
  have over: "checkGameOver game_stuck = Inr True" by code_simp
  have none: "\<not> (\<exists>p row col. Some p \<in> set (trayPieces game_stuck) \<and>
          0 \<le> row \<and> row \<le> int (gridSize (grid game_stuck)) - int (rows p) \<and>
          0 \<le> col \<and> col \<le> int (gridSize (grid game_stuck)) - int (cols p) \<and>
          canPlacePiece (grid game_stuck) p row col = Inr True)"
    using checkGameOver_iff [OF w1 t1] over by simp
  have fits: "canPlacePiece (grid game_open) line3h 1 3 = Inr True" by code_simp
  have "Some line3h \<in> set (trayPieces game_open)" by (simp add: game_open_def)
  moreover have "(1::int) \<le> int (gridSize (grid game_open)) - int (rows line3h)"
    and "(3::int) \<le> int (gridSize (grid game_open)) - int (cols line3h)"
    by (simp_all add: game_open_def board1_def line3h_def)
  ultimately have "\<exists>p row col. Some p \<in> set (trayPieces game_open) \<and>
          0 \<le> row \<and> row \<le> int (gridSize (grid game_open)) - int (rows p) \<and>
          0 \<le> col \<and> col \<le> int (gridSize (grid game_open)) - int (cols p) \<and>
          canPlacePiece (grid game_open) p row col = Inr True"
    using fits by (intro exI [of _ line3h] exI [of _ 1] exI [of _ 3]) simp
  then have "checkGameOver game_open = Inr False"
    using checkGameOver_iff [OF w2 t2] by simp
  with w1 w2 t1 t2 over none fits show ?thesis by blast
qed

section \<open>Clearing cells\<close>

lemma clearCells_wf:
  assumes "wf_grid g" and "\<forall>(row, col) \<in> set cells. row < gridSize g \<and> col < gridSize g"
  shows "\<exists>g'. clearCells g cells = Inr g' \<and> wf_grid g' \<and> gridSize g' = gridSize g \<and>
           (\<forall>row < gridSize g. \<forall>col < gridSize g.
              state g' ! row ! col = (if (row, col) \<in> set cells then Null else state g ! row ! col))"
  using assms
proof (induction cells arbitrary: g)
  case Nil
  then show ?case by simp
next
  case (Cons a cells)
  obtain i j where a: "a = (i, j)" by (cases a)
  with Cons.prems have i: "i < gridSize g" and j: "j < gridSize g" by auto
  let ?g1 = "g\<lparr>state := (state g)[i := (state g ! i)[j := Null]]\<rparr>"
  have w1: "wf_grid ?g1" using Cons.prems(1) by (rule wf_grid_update)
  have wr: "writeCell (state g) i j Null = Inr (state ?g1)"
    using writeCell_wf [OF Cons.prems(1) i j] by simp
  have "\<forall>(row, col) \<in> set cells. row < gridSize ?g1 \<and> col < gridSize ?g1"
    using Cons.prems(2) by auto
  from Cons.IH [OF w1 this] obtain g' where
    f: "clearCells ?g1 cells = Inr g'" and w: "wf_grid g'" and sz: "gridSize g' = gridSize g"
    and st: "\<forall>row < gridSize g. \<forall>col < gridSize g.
              state g' ! row ! col = (if (row, col) \<in> set cells then Null else state ?g1 ! row ! col)"
    by auto
  have "state g' ! row ! col = (if (row, col) \<in> set (a # cells) then Null else state g ! row ! col)"
    if rc: "row < gridSize g" "col < gridSize g" for row col
  proof -
    have "(state g)[i := (state g ! i)[j := Null]] ! row ! col =
            (if row = i \<and> col = j then Null else state g ! row ! col)"
      by (rule nth_grid_update [OF Cons.prems(1) i j rc])
    then have g1: "state ?g1 ! row ! col =
            (if row = i \<and> col = j then Null else state g ! row ! col)"
      by simp
    from st rc have "state g' ! row ! col =
            (if (row, col) \<in> set cells then Null else state ?g1 ! row ! col)"
      by blast
    then show ?thesis unfolding g1 by (auto simp: a)
  qed
  moreover have "clearCells g (a # cells) = Inr g'"
    using f wr by (simp add: a)
  ultimately show ?case using w sz by blast
qed

section \<open>Drawing pieces\<close>

lemma Piece_catalog:
  "list_all (\<lambda>t. case Piece t of Inl e \<Rightarrow> False | Inr p \<Rightarrow> wf_piece p \<and> ptype p = t) PIECE_TYPES"
  by code_simp

lemma Piece_wf:
  assumes "t \<in> set PIECE_TYPES"
  shows "\<exists>p. Piece t = Inr p \<and> wf_piece p"
proof (cases "Piece t")
  case (Inl e)
  with assms Piece_catalog show ?thesis by (auto simp: list_all_iff)
next
  case (Inr p)
  with assms Piece_catalog show ?thesis by (auto simp: list_all_iff)
qed

lemma length_PIECE_TYPES: "length PIECE_TYPES = 18"
  by (simp add: PIECE_TYPES_def PIECE_DEFINITIONS_def)

lemma randomIndex_range:
  assumes "0 \<le> u" and "u < 1"
  shows "0 \<le> \<lfloor>u * 18\<rfloor>" and "\<lfloor>u * 18\<rfloor> < 18"
proof -
  from assms show "0 \<le> \<lfloor>u * 18\<rfloor>" by simp
  from assms have "u * 18 < 18" by simp
  then show "\<lfloor>u * 18\<rfloor> < 18" by (simp add: floor_less_iff)
qed

lemma createRandom_index:
  assumes "0 \<le> u" and "u < 1"
  shows "createRandom u = Piece (PIECE_TYPES ! nat \<lfloor>u * 18\<rfloor>)"
  using randomIndex_range [OF assms] by (simp add: createRandom_def length_PIECE_TYPES)

lemma createRandom_wf:
  assumes "0 \<le> u" and "u < 1"
  shows "\<exists>p. createRandom u = Inr p \<and> wf_piece p"
proof -
  have "nat \<lfloor>u * 18\<rfloor> < length PIECE_TYPES"
    using randomIndex_range [OF assms] unfolding length_PIECE_TYPES by linarith
  then have "PIECE_TYPES ! nat \<lfloor>u * 18\<rfloor> \<in> set PIECE_TYPES" by (rule nth_mem)
  then show ?thesis by (simp add: createRandom_index [OF assms] Piece_wf)
qed

lemma generateTrayPieces_wf:
  assumes "randoms_ok (u1, u2, u3)"
  shows "\<exists>p1 p2 p3. createRandom u1 = Inr p1 \<and> createRandom u2 = Inr p2 \<and>
           createRandom u3 = Inr p3 \<and> wf_piece p1 \<and> wf_piece p2 \<and> wf_piece p3 \<and>
           generateTrayPieces gm (u1, u2, u3) = Inr (gm\<lparr>trayPieces := [Some p1, Some p2, Some p3]\<rparr>)"
proof -
  from assms obtain p1 p2 p3 where
    "createRandom u1 = Inr p1" "wf_piece p1" "createRandom u2 = Inr p2" "wf_piece p2"
    "createRandom u3 = Inr p3" "wf_piece p3"
    using createRandom_wf [of u1] createRandom_wf [of u2] createRandom_wf [of u3]
    by (auto simp: randoms_ok_def)
  then show ?thesis by (simp add: generateTrayPieces_def)
qed

section \<open>One placement, step by step\<close>

lemma checkAndClearLines_wf:
  assumes "wf_grid (grid gm)"
  shows "\<exists>completeRows completeCols gm'.
           findCompleteRows (grid gm) = Inr completeRows \<and>
           findCompleteCols (grid gm) = Inr completeCols \<and>
           checkAndClearLines gm = Inr gm' \<and>
           wf_grid (grid gm') \<and> gridSize (grid gm') = gridSize (grid gm) \<and>
           trayPieces gm' = trayPieces gm \<and> isAnimating gm' = isAnimating gm \<and>
           isGameOver gm' = isGameOver gm \<and>
           score gm' = score gm +
             500 * int (length completeRows + length completeCols) *
                   int (length completeRows + length completeCols)"
proof -
  let ?g = "grid gm"
  let ?rs = "filter (\<lambda>row. \<forall>col < gridSize ?g. state ?g ! row ! col \<noteq> Null) [0..<gridSize ?g]"
  let ?cs = "filter (\<lambda>col. \<forall>row < gridSize ?g. state ?g ! row ! col \<noteq> Null) [0..<gridSize ?g]"
  have rs: "findCompleteRows ?g = Inr ?rs" using assms by (rule findCompleteRows_wf)
  have cs: "findCompleteCols ?g = Inr ?cs" using assms by (rule findCompleteCols_wf)
  show ?thesis
  proof (cases "length ?rs + length ?cs = 0")
    case True
    then have "checkAndClearLines gm = Inr gm"
      by (simp add: checkAndClearLines_def rs cs)
    with rs cs True assms show ?thesis
      by (intro exI [of _ ?rs] exI [of _ ?cs] exI [of _ gm]) simp
  next
    case False
    have "\<forall>(row, col) \<in> set (getCellsToClear ?g ?rs ?cs). row < gridSize ?g \<and> col < gridSize ?g"
      by (auto simp: set_getCellsToClear)
    from clearCells_wf [OF assms this] obtain g' where
      c: "clearCells ?g (getCellsToClear ?g ?rs ?cs) = Inr g'" and w: "wf_grid g'"
      and sz: "gridSize g' = gridSize ?g"
      by blast
    let ?gm' = "addScore (gm\<lparr>grid := g'\<rparr>) (calculateLineBonus (int (length ?rs + length ?cs)))"
    have "checkAndClearLines gm = Inr ?gm'"
    proof -
      from False have "(length ?rs + length ?cs = 0) = False" by simp
      then show ?thesis
        by (simp only: checkAndClearLines_def rs cs bindE_Inr Let_def if_False c)
    qed
    moreover have "wf_grid (grid ?gm')" "gridSize (grid ?gm') = gridSize ?g"
      "trayPieces ?gm' = trayPieces gm" "isAnimating ?gm' = isAnimating gm"
      "isGameOver ?gm' = isGameOver gm"
      "score ?gm' = score gm + 500 * int (length ?rs + length ?cs) * int (length ?rs + length ?cs)"
      using w sz by (simp_all add: addScore_def calculateLineBonus_def)
    ultimately show ?thesis using rs cs
      by (intro exI [of _ ?rs] exI [of _ ?cs] exI [of _ ?gm']) simp
  qed
qed

lemma wf_tray_removePieceFromTray:
  assumes "wf_tray (trayPieces gm)"
  shows "wf_tray (trayPieces (removePieceFromTray gm index))"
proof -
  have "Some p \<in> set (trayPieces gm)"
    if "Some p \<in> set (trayPieces (removePieceFromTray gm index))" for p
  proof (cases "index < length (trayPieces gm)")
    case True
    with that have "Some p \<in> set ((trayPieces gm)[index := None])"
      by (simp add: removePieceFromTray_def)
    then have "Some p \<in> insert None (set (trayPieces gm))"
      using set_update_subset_insert by fastforce
    then show ?thesis by simp
  next
    case False
    with that show ?thesis by (auto simp: removePieceFromTray_def)
  qed
  with assms show ?thesis by (simp add: wf_tray_iff)
qed

lemma checkAndRefillTray_wf:
  assumes "randoms_ok (u1, u2, u3)" and "wf_tray (trayPieces gm)"
  shows "\<exists>p1 p2 p3 gm'. createRandom u1 = Inr p1 \<and> createRandom u2 = Inr p2 \<and>
           createRandom u3 = Inr p3 \<and>
           checkAndRefillTray gm (u1, u2, u3) = Inr gm' \<and>
           gm' = gm\<lparr>trayPieces :=
                     if list_all (\<lambda>piece. piece = None) (trayPieces gm)
                     then [Some p1, Some p2, Some p3] else trayPieces gm\<rparr> \<and>
           wf_tray (trayPieces gm')"
proof -
  from generateTrayPieces_wf [OF assms(1), of gm] obtain p1 p2 p3 where
    r: "createRandom u1 = Inr p1" "createRandom u2 = Inr p2" "createRandom u3 = Inr p3"
    and w: "wf_piece p1" "wf_piece p2" "wf_piece p3"
    and g: "generateTrayPieces gm (u1, u2, u3) = Inr (gm\<lparr>trayPieces := [Some p1, Some p2, Some p3]\<rparr>)"
    by blast
  show ?thesis
  proof (cases "list_all (\<lambda>piece. piece = None) (trayPieces gm)")
    case True
    then have "checkAndRefillTray gm (u1, u2, u3) = Inr (gm\<lparr>trayPieces := [Some p1, Some p2, Some p3]\<rparr>)"
      by (simp add: checkAndRefillTray_def refillTray_def g)
    moreover have "wf_tray [Some p1, Some p2, Some p3]" using w by (simp add: wf_tray_def)
    ultimately show ?thesis using r True
      by (intro exI [of _ p1] exI [of _ p2] exI [of _ p3]
            exI [of _ "gm\<lparr>trayPieces := [Some p1, Some p2, Some p3]\<rparr>"]) simp
  next
    case False
    then have "checkAndRefillTray gm (u1, u2, u3) = Inr gm"
      by (simp add: checkAndRefillTray_def)
    with r False assms(2) show ?thesis
      by (intro exI [of _ p1] exI [of _ p2] exI [of _ p3] exI [of _ gm]) simp
  qed
qed

lemma checkGameOver_loop_cong:
  "grid a = grid b \<Longrightarrow> checkGameOver_loop a ps = checkGameOver_loop b ps"
proof (induction ps)
  case Nil
  show ?case by simp
next
  case (Cons s ps)
  then show ?case by (cases s) (simp_all add: canPieceFitAnywhere_def cong: if_cong)
qed

lemma checkGameOver_cong:
  assumes "grid a = grid b" and "trayPieces a = trayPieces b"
  shows "checkGameOver a = checkGameOver b"
  using checkGameOver_loop_cong [OF assms(1), of "trayPieces b"] assms(2)
  by (simp add: checkGameOver_def)

lemma checkGameOver_total:
  assumes "wf_grid (grid gm)" and "wf_tray (trayPieces gm)"
  shows "\<exists>over. checkGameOver gm = Inr over"
  unfolding checkGameOver_def by (rule exI) (rule checkGameOver_loop_wf [OF assms])

lemma placePiece_wf:
  assumes wg: "wf_grid (grid gm)" and wt: "wf_tray (trayPieces gm)"
    and ro: "randoms_ok (u1, u2, u3)" and fc: "getFilledCells p = Inr cells"
  shows "\<exists>g1 completeRows completeCols p1 p2 p3 gm' over.
           placePiece_fill (grid gm) p r c cells = Inr g1 \<and>
           findCompleteRows g1 = Inr completeRows \<and>
           findCompleteCols g1 = Inr completeCols \<and>
           createRandom u1 = Inr p1 \<and> createRandom u2 = Inr p2 \<and> createRandom u3 = Inr p3 \<and>
           placePiece gm p r c trayIndex (u1, u2, u3) = Inr gm' \<and>
           score gm' = score gm + int (length cells) * 10 +
             500 * int (length completeRows + length completeCols) *
                   int (length completeRows + length completeCols) \<and>
           trayPieces gm' =
             (if list_all (\<lambda>piece. piece = None) (trayPieces (removePieceFromTray gm trayIndex))
              then [Some p1, Some p2, Some p3]
              else trayPieces (removePieceFromTray gm trayIndex)) \<and>
           wf_grid (grid gm') \<and> gridSize (grid gm') = gridSize (grid gm) \<and>
           wf_tray (trayPieces gm') \<and> isAnimating gm' = False \<and>
           checkGameOver gm' = Inr over \<and> isGameOver gm' = (over \<or> isGameOver gm)"
proof -
  let ?gm0 = "gm\<lparr>isAnimating := True\<rparr>"
  from placePiece_fill_wf [OF wg, of p r c cells] obtain g1 where
    fill: "placePiece_fill (grid gm) p r c cells = Inr g1" and w1: "wf_grid g1"
    and sz1: "gridSize g1 = gridSize (grid gm)"
    by blast
  let ?tray = "trayPieces (removePieceFromTray gm trayIndex)"
  let ?gm3 = "addScore (removePieceFromTray (?gm0\<lparr>grid := g1\<rparr>) trayIndex) (int (length cells) * 10)"
  have gm3: "grid ?gm3 = g1" "trayPieces ?gm3 = ?tray" "isGameOver ?gm3 = isGameOver gm"
    "score ?gm3 = score gm + int (length cells) * 10"
    by (simp_all add: addScore_def removePieceFromTray_def)
  have "wf_grid (grid ?gm3)" using w1 gm3(1) by simp
  from checkAndClearLines_wf [OF this] obtain rs cs gm4 where
    rs: "findCompleteRows g1 = Inr rs" and cs: "findCompleteCols g1 = Inr cs"
    and c4: "checkAndClearLines ?gm3 = Inr gm4"
    and w4: "wf_grid (grid gm4)" and sz4: "gridSize (grid gm4) = gridSize g1"
    and t4: "trayPieces gm4 = ?tray" and o4: "isGameOver gm4 = isGameOver gm"
    and s4: "score gm4 = score gm + int (length cells) * 10 +
               500 * int (length rs + length cs) * int (length rs + length cs)"
    unfolding gm3 by blast
  have "wf_tray ?tray" using wt by (rule wf_tray_removePieceFromTray)
  then have "wf_tray (trayPieces gm4)" by (simp add: t4)
  from checkAndRefillTray_wf [OF ro this] obtain p1 p2 p3 gm5 where
    r: "createRandom u1 = Inr p1" "createRandom u2 = Inr p2" "createRandom u3 = Inr p3"
    and c5: "checkAndRefillTray gm4 (u1, u2, u3) = Inr gm5"
    and gm5: "gm5 = gm4\<lparr>trayPieces :=
                     if list_all (\<lambda>piece. piece = None) (trayPieces gm4)
                     then [Some p1, Some p2, Some p3] else trayPieces gm4\<rparr>"
    and wt5: "wf_tray (trayPieces gm5)"
    by blast
  have w5: "wf_grid (grid gm5)" using w4 by (simp add: gm5)
  from checkGameOver_total [OF w5 wt5] obtain over where over: "checkGameOver gm5 = Inr over"
    by blast
  let ?gm' = "if over then triggerGameOver (gm5\<lparr>isAnimating := False\<rparr>)
              else gm5\<lparr>isAnimating := False\<rparr>"
  have pp: "placePiece gm p r c trayIndex (u1, u2, u3) = Inr ?gm'"
    by (simp add: placePiece_def Let_def fc fill c4 c5 over)
  have same: "grid ?gm' = grid gm5" "trayPieces ?gm' = trayPieces gm5"
    by (simp_all add: triggerGameOver_def)
  then have "checkGameOver ?gm' = checkGameOver gm5" by (rule checkGameOver_cong)
  then have ov: "checkGameOver ?gm' = Inr over" by (simp only: over)
  have "score ?gm' = score gm + int (length cells) * 10 +
               500 * int (length rs + length cs) * int (length rs + length cs)"
    by (simp add: triggerGameOver_def gm5 s4)
  moreover have "trayPieces ?gm' =
             (if list_all (\<lambda>piece. piece = None) ?tray then [Some p1, Some p2, Some p3] else ?tray)"
    by (simp add: triggerGameOver_def gm5 t4)
  moreover have "wf_grid (grid ?gm')" using w5 same(1) by simp
  moreover have "gridSize (grid ?gm') = gridSize (grid gm)"
    by (simp add: triggerGameOver_def gm5 sz4 sz1)
  moreover have "wf_tray (trayPieces ?gm')" using wt5 same(2) by simp
  moreover have "isAnimating ?gm' = False" by (simp add: triggerGameOver_def)
  moreover have "isGameOver ?gm' = (over \<or> isGameOver gm)"
    by (simp add: triggerGameOver_def gm5 o4)
  ultimately show ?thesis
    using fill rs cs r pp ov
    by (intro exI [of _ g1] exI [of _ rs] exI [of _ cs] exI [of _ p1] exI [of _ p2] exI [of _ p3]
          exI [of _ ?gm'] exI [of _ over]) (simp only: simp_thms)
qed

section \<open>Scoring\<close>

text \<open>
  Claim C4. An accepted placement of a piece with \<open>k\<close> filled cells that completes
  \<open>total\<close> lines, rows and columns counted together on the board as it is after the
  cells are filled, raises the score by exactly \<open>10 k\<close>, plus one bonus of
  \<open>500 total\<^sup>2\<close> when \<open>total \<ge> 1\<close>. Rows and columns completed by the same placement
  enter the one bonus together.
\<close>

theorem placePiece_score:
  assumes "wf_grid (grid gm)" and "wf_tray (trayPieces gm)" and "randoms_ok us"
    and "getFilledCells p = Inr cells"
    and "canPlacePiece (grid gm) p r c = Inr True"
    and "placePiece_fill (grid gm) p r c cells = Inr g1"
    and "findCompleteRows g1 = Inr completeRows"
    and "findCompleteCols g1 = Inr completeCols"
    and "totalLines = int (length completeRows) + int (length completeCols)"
  shows "\<exists>gm'. placePiece gm p r c trayIndex us = Inr gm' \<and>
           score gm' = score gm + 10 * int (length cells) +
                         (if totalLines \<ge> 1 then 500 * totalLines\<^sup>2 else 0)"
proof -
  obtain u1 u2 u3 where us: "us = (u1, u2, u3)" by (cases us) auto
  from placePiece_wf [OF assms(1,2) assms(3) [unfolded us] assms(4), of r c trayIndex]
  obtain g1' rs cs gm' where
    "placePiece_fill (grid gm) p r c cells = Inr g1'"
    and "findCompleteRows g1' = Inr rs" and "findCompleteCols g1' = Inr cs"
    and pp: "placePiece gm p r c trayIndex (u1, u2, u3) = Inr gm'"
    and "score gm' = score gm + int (length cells) * 10 +
             500 * int (length rs + length cs) * int (length rs + length cs)"
    by blast
  with assms(6,7,8) have sc: "score gm' = score gm + int (length cells) * 10 +
             500 * int (length completeRows + length completeCols) *
                   int (length completeRows + length completeCols)"
    by simp
  have "500 * int (length completeRows + length completeCols) *
          int (length completeRows + length completeCols) =
        (if totalLines \<ge> 1 then 500 * totalLines\<^sup>2 else 0)"
    by (simp add: assms(9) power2_eq_square)
  with pp sc show ?thesis by (simp add: us)
qed

text \<open>
  A board on which the vertical line of three, placed at anchor (0, 0), completes row 0
  and column 0 together: 30 points for its three cells and one bonus of
  \<open>500 \<times> 2\<^sup>2 = 2000\<close>. And a piece record of five cells (the catalog has none),
  placed on the empty board: 50 points.
\<close>

theorem placePiece_score_witness:
  "wf_grid (grid game_cross) \<and> wf_tray (trayPieces game_cross) \<and> randoms_ok (0, 0, 0) \<and>
   getFilledCells line3v = Inr [(0, 0), (1, 0), (2, 0)] \<and>
   canPlacePiece (grid game_cross) line3v 0 0 = Inr True \<and>
   placePiece_fill (grid game_cross) line3v 0 0 [(0, 0), (1, 0), (2, 0)] = Inr board_cross_filled \<and>
   findCompleteRows board_cross_filled = Inr [0] \<and>
   findCompleteCols board_cross_filled = Inr [0] \<and>
   (\<exists>gm'. placePiece game_cross line3v 0 0 0 (0, 0, 0) = Inr gm' \<and> score gm' = 120 + 30 + 2000) \<and>
   canPlacePiece (grid game_plus) plus5 2 3 = Inr True \<and>
   (\<exists>gm'. placePiece game_plus plus5 2 3 1 (0, 0, 0) = Inr gm' \<and> score gm' = 50)"
proof -
  have w: "wf_grid (grid game_cross)" by code_simp
  have t: "wf_tray (trayPieces game_cross)" by code_simp
  have r: "randoms_ok (0, 0, 0)" by (simp add: randoms_ok_def)
  have c: "getFilledCells line3v = Inr [(0, 0), (1, 0), (2, 0)]" by code_simp
  have ok: "canPlacePiece (grid game_cross) line3v 0 0 = Inr True" by code_simp
  have f: "placePiece_fill (grid game_cross) line3v 0 0 [(0, 0), (1, 0), (2, 0)] =
             Inr board_cross_filled"
    by code_simp
  have rs: "findCompleteRows board_cross_filled = Inr [0]" by code_simp
  have cs: "findCompleteCols board_cross_filled = Inr [0]" by code_simp
  have a: "\<exists>gm'. placePiece game_cross line3v 0 0 0 (0, 0, 0) = Inr gm' \<and>
             score gm' = 120 + 30 + 2000"
    using placePiece_score [OF w t r c ok f rs cs, of 2 0] by (simp add: game_cross_def)
  have w2: "wf_grid (grid game_plus)" by code_simp
  have t2: "wf_tray (trayPieces game_plus)" by code_simp
  have c2: "getFilledCells plus5 = Inr [(0, 1), (1, 0), (1, 1), (1, 2), (2, 1)]" by code_simp
  have ok2: "canPlacePiece (grid game_plus) plus5 2 3 = Inr True" by code_simp
  have f2: "placePiece_fill (grid game_plus) plus5 2 3
              [(0, 1), (1, 0), (1, 1), (1, 2), (2, 1)] = Inr board_plus"
    by code_simp
  have rs2: "findCompleteRows board_plus = Inr []" by code_simp
  have cs2: "findCompleteCols board_plus = Inr []" by code_simp
  have b: "\<exists>gm'. placePiece game_plus plus5 2 3 1 (0, 0, 0) = Inr gm' \<and> score gm' = 50"
    using placePiece_score [OF w2 t2 r c2 ok2 f2 rs2 cs2, of 0 1] by (simp add: game_plus_def)
  from w t r c ok f rs cs a ok2 b show ?thesis by blast
qed

section \<open>Tray refill and the game-over check\<close>

lemma removePieceFromTray_nth:
  assumes "length (trayPieces gm) = 3" and "trayIndex < 3"
  shows "length (trayPieces (removePieceFromTray gm trayIndex)) = 3"
    and "\<forall>i < 3. trayPieces (removePieceFromTray gm trayIndex) ! i =
                   (if i = trayIndex then None else trayPieces gm ! i)"
  using assms by (simp_all add: removePieceFromTray_def nth_list_update)

text \<open>
  Claim C7. In every placement on an active game with its tray of three slots:
  removing the placed piece sets its slot to \<open>null\<close> and leaves the other slots where
  they are; the tray is refilled if and only if all three slots are then \<open>null\<close>, and
  the refill puts three fresh pieces in the slots; and the game-over flag that
  \<open>placePiece\<close> leaves is the verdict of \<open>checkGameOver\<close> on the final state, whose
  tray is the one after the refill. So the refill comes before the game-over check,
  and the check sees the tray the player faces next.
\<close>

theorem placePiece_refill_before_gameOver:
  assumes "wf_grid (grid gm)" and "wf_tray (trayPieces gm)" and "randoms_ok (u1, u2, u3)"
    and "getFilledCells p = Inr cells"
    and "length (trayPieces gm) = 3" and "trayIndex < 3" and "\<not> isGameOver gm"
  shows "\<exists>p1 p2 p3 gm'.
           createRandom u1 = Inr p1 \<and> createRandom u2 = Inr p2 \<and> createRandom u3 = Inr p3 \<and>
           placePiece gm p r c trayIndex (u1, u2, u3) = Inr gm' \<and>
           length (trayPieces (removePieceFromTray gm trayIndex)) = 3 \<and>
           (\<forall>i < 3. trayPieces (removePieceFromTray gm trayIndex) ! i =
                      (if i = trayIndex then None else trayPieces gm ! i)) \<and>
           trayPieces gm' =
             (if \<forall>i < 3. trayPieces (removePieceFromTray gm trayIndex) ! i = None
              then [Some p1, Some p2, Some p3]
              else trayPieces (removePieceFromTray gm trayIndex)) \<and>
           checkGameOver gm' = Inr (isGameOver gm')"
proof -
  let ?tray = "trayPieces (removePieceFromTray gm trayIndex)"
  from placePiece_wf [OF assms(1-4), of r c trayIndex]
  obtain p1 p2 p3 gm' over where
    r: "createRandom u1 = Inr p1" "createRandom u2 = Inr p2" "createRandom u3 = Inr p3"
    and pp: "placePiece gm p r c trayIndex (u1, u2, u3) = Inr gm'"
    and tr: "trayPieces gm' =
               (if list_all (\<lambda>piece. piece = None) ?tray then [Some p1, Some p2, Some p3]
                else ?tray)"
    and ov: "checkGameOver gm' = Inr over" and fl: "isGameOver gm' = (over \<or> isGameOver gm)"
    by blast
  have len: "length ?tray = 3"
    and nth: "\<forall>i < 3. ?tray ! i = (if i = trayIndex then None else trayPieces gm ! i)"
    using removePieceFromTray_nth [OF assms(5,6)] by blast+
  have "list_all (\<lambda>piece. piece = None) ?tray \<longleftrightarrow> (\<forall>i < 3. ?tray ! i = None)"
    by (simp add: list_all_length len)
  with tr have tr': "trayPieces gm' =
               (if \<forall>i < 3. ?tray ! i = None then [Some p1, Some p2, Some p3] else ?tray)"
    by simp
  from ov fl assms(7) have "checkGameOver gm' = Inr (isGameOver gm')" by simp
  with r pp len nth tr' show ?thesis by blast
qed

text \<open>
  The last piece of a tray is placed on the empty board. The tray is refilled, with
  the pieces that the random numbers 0, 1/2 and 17/18 select, and the game is not
  over. Had the check come first, it would have seen three empty slots and ended
  the game.
\<close>

theorem placePiece_refill_before_gameOver_witness:
  "wf_grid (grid game_last) \<and> wf_tray (trayPieces game_last) \<and> randoms_ok (0, 1 / 2, 17 / 18) \<and>
   getFilledCells square2 = Inr [(0, 0), (0, 1), (1, 0), (1, 1)] \<and>
   length (trayPieces game_last) = 3 \<and> (1::nat) < 3 \<and> \<not> isGameOver game_last \<and>
   createRandom 0 = Inr line3h \<and> createRandom (1 / 2) = Inr lShape4 \<and>
   createRandom (17 / 18) = Inr sShape2 \<and>
   checkGameOver (removePieceFromTray game_last 1) = Inr True \<and>
   (\<exists>gm'. placePiece game_last square2 0 0 1 (0, 1 / 2, 17 / 18) = Inr gm' \<and>
      trayPieces gm' = [Some line3h, Some lShape4, Some sShape2] \<and>
      checkGameOver gm' = Inr False \<and> \<not> isGameOver gm')"
proof -
  have w: "wf_grid (grid game_last)" by code_simp
  have t: "wf_tray (trayPieces game_last)" by code_simp
  have r: "randoms_ok (0, 1 / 2, 17 / 18)" by (simp add: randoms_ok_def)
  have c: "getFilledCells square2 = Inr [(0, 0), (0, 1), (1, 0), (1, 1)]" by code_simp
  have l: "length (trayPieces game_last) = 3" by (simp add: game_last_def)
  have n: "\<not> isGameOver game_last" by (simp add: game_last_def)
  have r1: "createRandom 0 = Inr line3h" by code_simp
  have r2: "createRandom (1 / 2) = Inr lShape4" by code_simp
  have r3: "createRandom (17 / 18) = Inr sShape2" by code_simp
  have e: "checkGameOver (removePieceFromTray game_last 1) = Inr True" by code_simp
  have all: "\<forall>i < 3. trayPieces (removePieceFromTray game_last 1) ! i = None"
    by (simp add: removePieceFromTray_def game_last_def nth_list_update less_Suc_eq numeral_3_eq_3)
  from placePiece_refill_before_gameOver [OF w t r c l _ n, of 1 0 0]
  obtain p1 p2 p3 gm' where
    "createRandom 0 = Inr p1" "createRandom (1 / 2) = Inr p2" "createRandom (17 / 18) = Inr p3"
    and pp: "placePiece game_last square2 0 0 1 (0, 1 / 2, 17 / 18) = Inr gm'"
    and tr: "trayPieces gm' =
             (if \<forall>i < 3. trayPieces (removePieceFromTray game_last 1) ! i = None
              then [Some p1, Some p2, Some p3]
              else trayPieces (removePieceFromTray game_last 1))"
    and ov: "checkGameOver gm' = Inr (isGameOver gm')"
    by auto
  with r1 r2 r3 all have tr': "trayPieces gm' = [Some line3h, Some lShape4, Some sShape2]"
    by simp
  have "placePiece game_last square2 0 0 1 (0, 1 / 2, 17 / 18) =
          Inr \<lparr>grid = \<lparr>gridSize = 8,
                       state =
                         [[Color ''#FFD700'', Color ''#FFD700'', Null, Null, Null, Null, Null, Null],
                          [Color ''#FFD700'', Color ''#FFD700'', Null, Null, Null, Null, Null, Null],
                          [Null, Null, Null, Null, Null, Null, Null, Null],
                          [Null, Null, Null, Null, Null, Null, Null, Null],
                          [Null, Null, Null, Null, Null, Null, Null, Null],
                          [Null, Null, Null, Null, Null, Null, Null, Null],
                          [Null, Null, Null, Null, Null, Null, Null, Null],
                          [Null, Null, Null, Null, Null, Null, Null, Null]]\<rparr>,
               score = 40, trayPieces = [Some line3h, Some lShape4, Some sShape2],
               isAnimating = False, isGameOver = False\<rparr>"
    by code_simp
  with pp have "\<not> isGameOver gm'" by auto
  with ov have "checkGameOver gm' = Inr False" by simp
  with pp tr' \<open>\<not> isGameOver gm'\<close> w t r c l n r1 r2 r3 e show ?thesis by simp
qed

section \<open>The drop handler guards the placement\<close>

text \<open>
  Claim C2 does not hold of \<open>placePiece\<close>: it never calls \<open>canPlacePiece\<close>. Placing the
  square at anchor (3, 0), where three of its four cells are occupied, is not legal,
  yet \<open>placePiece\<close> overwrites the cells, empties the tray slot and adds 40 points.
\<close>

theorem placePiece_unchecked_counterexample:
  "canPlacePiece (grid game_cross) square2 3 0 = Inr False \<and>
   score game_cross = 120 \<and>
   trayPieces game_cross = [Some line3v, Some square2, None] \<and>
   placePiece game_cross square2 3 0 1 (0, 0, 0) =
     Inr \<lparr>grid =
            \<lparr>gridSize = 8,
             state =
               [[Null, Color ''#FFD700'', Color ''#FFD700'', Color ''#FF8C00'', Color ''#FF8C00'',
                 Color ''#FF8C00'', Color ''#00E676'', Color ''#00E676''],
                [Null, Null, Null, Null, Null, Null, Color ''#00E676'', Color ''#00E676''],
                [Null, Null, Null, Null, Null, Null, Null, Null],
                [Color ''#FFD700'', Color ''#FFD700'', Null, Null, Null, Null, Null, Null],
                [Color ''#FFD700'', Color ''#FFD700'', Null, Null, Null, Null, Null, Null],
                [Color ''#B388FF'', Null, Null, Null, Null, Null, Null, Null],
                [Color ''#00D4FF'', Null, Null, Null, Null, Null, Null, Null],
                [Color ''#00D4FF'', Null, Null, Null, Null, Null, Null, Null]]\<rparr>,
          score = 160, trayPieces = [Some line3v, None, None],
          isAnimating = False, isGameOver = False\<rparr>"
proof -
  have "canPlacePiece (grid game_cross) square2 3 0 = Inr False" by code_simp
  moreover have "score game_cross = 120"
    and "trayPieces game_cross = [Some line3v, Some square2, None]"
    by (simp_all add: game_cross_def)
  moreover have "placePiece game_cross square2 3 0 1 (0, 0, 0) =
     Inr \<lparr>grid =
            \<lparr>gridSize = 8,
             state =
               [[Null, Color ''#FFD700'', Color ''#FFD700'', Color ''#FF8C00'', Color ''#FF8C00'',
                 Color ''#FF8C00'', Color ''#00E676'', Color ''#00E676''],
                [Null, Null, Null, Null, Null, Null, Color ''#00E676'', Color ''#00E676''],
                [Null, Null, Null, Null, Null, Null, Null, Null],
                [Color ''#FFD700'', Color ''#FFD700'', Null, Null, Null, Null, Null, Null],
                [Color ''#FFD700'', Color ''#FFD700'', Null, Null, Null, Null, Null, Null],
                [Color ''#B388FF'', Null, Null, Null, Null, Null, Null, Null],
                [Color ''#00D4FF'', Null, Null, Null, Null, Null, Null, Null],
                [Color ''#00D4FF'', Null, Null, Null, Null, Null, Null, Null]]\<rparr>,
          score = 160, trayPieces = [Some line3v, None, None],
          isAnimating = False, isGameOver = False\<rparr>"
    by code_simp
  ultimately show ?thesis by simp
qed

text \<open>
  Claim C2, amended. The check is made by the caller: \<open>handlePointerUp\<close> hands a drop
  to \<open>placePiece\<close> only when \<open>canPlacePiece\<close> holds at the drop cell. When it is false,
  or the drop is outside the grid, or no drag is in progress, the game (board, tray
  and score) is returned unchanged. On a grid whose state is \<open>N \<times> N\<close> the check always
  yields true or false, so there is no third case. \<open>placePiece\<close> itself does not
  repeat the check and relies on its caller.
\<close>

theorem handlePointerUp_guard:
  assumes "wf_grid (grid gm)" and "getFilledCells p = Inr cells"
  shows "(canPlacePiece (grid gm) p row col = Inr False \<longrightarrow>
            handlePointerUp gm dragging p trayIndex (Some (row, col)) us = Inr gm) \<and>
         (canPlacePiece (grid gm) p row col = Inr True \<longrightarrow>
            handlePointerUp gm True p trayIndex (Some (row, col)) us =
              placePiece gm p row col trayIndex us) \<and>
         handlePointerUp gm dragging p trayIndex None us = Inr gm \<and>
         handlePointerUp gm False p trayIndex gridPos us = Inr gm \<and>
         (canPlacePiece (grid gm) p row col = Inr False \<or>
          canPlacePiece (grid gm) p row col = Inr True)"
proof -
  obtain b where "canPlacePiece (grid gm) p row col = Inr b"
    using canPlacePiece_wf [OF assms] by blast
  then have "canPlacePiece (grid gm) p row col = Inr False \<or>
             canPlacePiece (grid gm) p row col = Inr True"
    by (cases b) simp_all
  then show ?thesis by (auto simp: handlePointerUp_def)
qed

theorem handlePointerUp_guard_witness:
  "wf_grid (grid game_cross) \<and>
   getFilledCells square2 = Inr [(0, 0), (0, 1), (1, 0), (1, 1)] \<and>
   canPlacePiece (grid game_cross) square2 3 0 = Inr False \<and>
   handlePointerUp game_cross True square2 1 (Some (3, 0)) (0, 0, 0) = Inr game_cross \<and>
   canPlacePiece (grid game_cross) square2 1 1 = Inr True \<and>
   handlePointerUp game_cross True square2 1 (Some (1, 1)) (0, 0, 0) =
     placePiece game_cross square2 1 1 1 (0, 0, 0)"
proof -
  have w: "wf_grid (grid game_cross)" by code_simp
  have c: "getFilledCells square2 = Inr [(0, 0), (0, 1), (1, 0), (1, 1)]" by code_simp
  have no: "canPlacePiece (grid game_cross) square2 3 0 = Inr False" by code_simp
  have yes: "canPlacePiece (grid game_cross) square2 1 1 = Inr True" by code_simp
  from handlePointerUp_guard [OF w c, of 3 0 True 1 "(0, 0, 0)"] no
  have "handlePointerUp game_cross True square2 1 (Some (3, 0)) (0, 0, 0) = Inr game_cross"
    by blast
  moreover from handlePointerUp_guard [OF w c, of 1 1 True 1 "(0, 0, 0)"] yes
  have "handlePointerUp game_cross True square2 1 (Some (1, 1)) (0, 0, 0) =
          placePiece game_cross square2 1 1 1 (0, 0, 0)"
    by blast
  ultimately show ?thesis using w c no yes by simp
qed

section \<open>The catalog and the random draw\<close>











section \<open>The invariants of a running game\<close>

text \<open>
  The theorems above assume a grid whose state is \<open>N \<times> N\<close>, a tray of pieces built by
  the constructor, and random numbers of \<open>[0, 1)\<close>. A new game satisfies these
  assumptions, with \<open>N = 8\<close> and a tray of three slots, and every placement keeps them.
\<close>

lemma wf_grid_Grid: "wf_grid (Grid n)"
  by (simp add: wf_grid_def Grid_def createEmptyState_def)

lemma wf_grid_reset_grid: "wf_grid (reset_grid g)"
  by (simp add: wf_grid_def reset_grid_def createEmptyState_def)

lemma Game_wf:
  assumes "randoms_ok us"
  shows "\<exists>gm. Game us = Inr gm \<and> wf_grid (grid gm) \<and> gridSize (grid gm) = 8 \<and>
           wf_tray (trayPieces gm) \<and> length (trayPieces gm) = 3 \<and> score gm = 0 \<and>
           canInteract gm"
proof -
  obtain u1 u2 u3 where us: "us = (u1, u2, u3)" by (cases us) auto
  let ?gm0 = "\<lparr>grid = Grid 8, score = 0, trayPieces = [], isAnimating = False,
               isGameOver = False\<rparr>"
  from generateTrayPieces_wf [OF assms [unfolded us], of ?gm0] obtain p1 p2 p3 where
    w: "wf_piece p1" "wf_piece p2" "wf_piece p3"
    and g: "generateTrayPieces ?gm0 (u1, u2, u3) = Inr (?gm0\<lparr>trayPieces := [Some p1, Some p2, Some p3]\<rparr>)"
    by blast
  from g have "Game us = Inr (?gm0\<lparr>trayPieces := [Some p1, Some p2, Some p3]\<rparr>)"
    by (simp add: Game_def us)
  moreover have "wf_tray [Some p1, Some p2, Some p3]" using w by (simp add: wf_tray_def)
  moreover have "gridSize (Grid 8) = 8" by (simp add: Grid_def)
  ultimately show ?thesis by (simp add: wf_grid_Grid canInteract_def)
qed

lemma placePiece_invariant:
  assumes "wf_grid (grid gm)" and "wf_tray (trayPieces gm)" and "randoms_ok us"
    and "wf_piece p" and "length (trayPieces gm) = 3" and "trayIndex < 3"
  shows "\<exists>gm'. placePiece gm p r c trayIndex us = Inr gm' \<and> wf_grid (grid gm') \<and>
           gridSize (grid gm') = gridSize (grid gm) \<and> wf_tray (trayPieces gm') \<and>
           length (trayPieces gm') = 3 \<and> score gm \<le> score gm' \<and> \<not> isAnimating gm'"
proof -
  obtain u1 u2 u3 where us: "us = (u1, u2, u3)" by (cases us) auto
  have fc: "getFilledCells p = Inr (filledCells p)" using assms(4) by (rule getFilledCells_wf)
  from placePiece_wf [OF assms(1,2) assms(3) [unfolded us] fc, of r c trayIndex]
  obtain rs cs :: "nat list" and p1 p2 p3 gm' where
    pp: "placePiece gm p r c trayIndex (u1, u2, u3) = Inr gm'"
    and sc: "score gm' = score gm + int (length (filledCells p)) * 10 +
             500 * int (length rs + length cs) * int (length rs + length cs)"
    and tr: "trayPieces gm' =
             (if list_all (\<lambda>piece. piece = None) (trayPieces (removePieceFromTray gm trayIndex))
              then [Some p1, Some p2, Some p3]
              else trayPieces (removePieceFromTray gm trayIndex))"
    and inv: "wf_grid (grid gm')" "gridSize (grid gm') = gridSize (grid gm)"
      "wf_tray (trayPieces gm')" "isAnimating gm' = False"
    by blast
  have "length (trayPieces (removePieceFromTray gm trayIndex)) = 3"
    using assms(5,6) by (rule removePieceFromTray_nth)
  with tr have "length (trayPieces gm') = 3" by simp
  moreover have "0 \<le> 500 * int (length rs + length cs) * int (length rs + length cs)"
    by simp
  then have "score gm \<le> score gm'" unfolding sc by linarith
  ultimately show ?thesis using pp inv by (simp add: us)
qed

end
